theory Spec2Isabelle
  imports Main "HOL-Library.Word" "HOL-Library.Char_ord" "HOL-Library.List_Lexorder"
    "HOL-Library.AList"
begin

unbundle bit_operations_syntax

section \<open>Strings and byte slices\<close>

text \<open>
  A Go \<^verbatim>\<open>string\<close> and a Go \<^verbatim>\<open>[]byte\<close> are both sequences of bytes; both are
  modelled as \<^typ>\<open>string\<close>, whose characters are bytes.
\<close>

type_synonym bytes = string

text \<open>\<^verbatim>\<open>strings.HasPrefix(s, prefix)\<close> and \<^verbatim>\<open>strings.HasSuffix(s, suffix)\<close>.\<close>

definition HasPrefix :: "'a list \<Rightarrow> 'a list \<Rightarrow> bool" where
  "HasPrefix s p = (take (length p) s = p)"

definition HasSuffix :: "'a list \<Rightarrow> 'a list \<Rightarrow> bool" where
  "HasSuffix s p = (length p \<le> length s \<and> drop (length s - length p) s = p)"

text \<open>
  \<^verbatim>\<open>strings.Index(s, sep)\<close> and \<^verbatim>\<open>bytes.Index(s, sep)\<close>: the position of the first
  occurrence of \<open>sep\<close> in \<open>s\<close>; Go's result \<open>-1\<close> is \<open>None\<close>.
\<close>

fun Index :: "'a list \<Rightarrow> 'a list \<Rightarrow> nat option" where
  "Index [] sep = (if sep = [] then Some 0 else None)"
| "Index (x # xs) sep =
     (if HasPrefix (x # xs) sep then Some 0 else map_option Suc (Index xs sep))"

text \<open>
  \<^verbatim>\<open>filepath.Ext(path)\<close>: the loop runs from the last byte towards the first, stops at a
  path separator, and returns the suffix that starts at the first dot it meets.
  \<open>ext_loop\<close> walks the reversed path; \<open>acc\<close> holds the bytes already passed.
\<close>

fun ext_loop :: "string \<Rightarrow> string \<Rightarrow> string" where
  "ext_loop [] acc = []"
| "ext_loop (c # cs) acc =
     (if c = CHR ''/'' then []
      else if c = CHR ''.'' then c # acc
      else ext_loop cs (c # acc))"

definition Ext :: "string \<Rightarrow> string" where
  "Ext path = ext_loop (rev path) []"

section \<open>Content types and converters (converter.go)\<close>

text \<open>
  The converter functions are values; \<open>GetConverter\<close> only selects one. Go's \<^verbatim>\<open>nil\<close>
  converter is \<open>None\<close>.
\<close>

datatype Converter =
    PdfToPdf | OfficeToPdf | TextToPdf | NewTextConverter string | HTMLToPdf
  | MailToPdfZip | MPRelatedToPdf | Skip | ImageToPdf

text \<open>The office branch of the \<^verbatim>\<open>default\<close> case of \<open>GetConverter\<close>.\<close>

definition isOfficeType :: "string \<Rightarrow> bool" where
  "isOfficeType contentType \<longleftrightarrow>
     HasPrefix contentType ''application/vnd.oasis.'' \<or>
     HasPrefix contentType ''application/vnd.openxmlformats-officedocument.'' \<or>
     HasPrefix contentType ''application/vnd.ms-word'' \<or>
     HasPrefix contentType ''application/vnd.ms-excel'' \<or>
     HasPrefix contentType ''application/vnd.ms-powerpoint'' \<or>
     contentType = ''application/x-ole-storage'' \<or>
     HasPrefix contentType ''application/vnd.sun.xml.'' \<or>
     HasPrefix contentType ''application/vnd.stardivision.'' \<or>
     HasPrefix contentType ''application/x-star.'' \<or>
     contentType = ''application/msword''"

text \<open>
  The last part of the \<^verbatim>\<open>default\<close> case: the switch on the major type, taken only
  when the first slash is at a position \<open>i > 0\<close>. The converter stays \<^verbatim>\<open>nil\<close> otherwise.
\<close>

definition byMajorType :: "string \<Rightarrow> Converter option" where
  "byMajorType contentType =
     (case Index contentType ''/'' of
        None \<Rightarrow> None
      | Some i \<Rightarrow>
          if i > 0 then
            (let major = take i contentType in
             if major = ''image'' then Some ImageToPdf
             else if major = ''text'' then Some TextToPdf
             else if major = ''audio'' \<or> major = ''video'' then None
             else None)
          else None)"

text \<open>\<open>mediaType\<close> is a Go map that may be \<^verbatim>\<open>nil\<close> (\<open>None\<close>).\<close>

definition GetConverter :: "string \<Rightarrow> (string \<rightharpoonup> string) option \<Rightarrow> Converter option" where
  "GetConverter contentType mediaType =
     (if contentType = ''application/pdf'' then Some PdfToPdf
      else if contentType = ''application/rtf'' then Some OfficeToPdf
      else if contentType = ''text/plain'' then
        (case mediaType of
           None \<Rightarrow> Some TextToPdf
         | Some m \<Rightarrow>
             (case m ''charset'' of
                None \<Rightarrow> Some TextToPdf
              | Some cs \<Rightarrow> if cs \<noteq> [] then Some (NewTextConverter cs) else Some TextToPdf))
      else if contentType = ''text/html'' then Some HTMLToPdf
      else if contentType = ''message/rfc822'' then Some MailToPdfZip
      else if contentType = ''multipart/related'' then Some MPRelatedToPdf
      else if contentType = ''application/x-pkcs7-signature'' then Some Skip
      else if isOfficeType contentType then Some OfficeToPdf
      else byMajorType contentType)"

text \<open>The table \<open>ExtContentType\<close>: file extension (without the dot) to content type.\<close>

definition ExtContentType :: "string \<rightharpoonup> string" where
  "ExtContentType = map_of
    [(''doc'', ''application/vnd.ms-word''),
     (''docx'', ''application/vnd.openxmlformats-officedocument.wordprocessingml.document''),
     (''dotx'', ''application/vnd.openxmlformats-officedocument.wordprocessingml.template''),
     (''xls'', ''application/vnd.ms-excel''),
     (''xlsx'', ''application/vnd.openxmlformats-officedocument.spreadsheetml.sheet''),
     (''xltx'', ''application/vnd.openxmlformats-officedocument.spreadsheetml.template''),
     (''ppt'', ''application/vnd.ms-powerpoint''),
     (''pptx'', ''application/vnd.openxmlformats-officedocument.presentationml.presentation''),
     (''ppsx'', ''application/vnd.openxmlformats-officedocument.presentationml.slideshow''),
     (''potx'', ''application/vnd.openxmlformats-officedocument.presentationml.template''),
     (''odg'', ''application/vnd.oasis.opendocument.graphics''),
     (''otg'', ''application/vnd.oasis.opendocument.graphics-template''),
     (''otp'', ''application/vnd.oasis.opendocument.presentation-template''),
     (''odp'', ''application/vnd.oasis.opendocument.presentation''),
     (''odm'', ''application/vnd.oasis.opendocument.text-master''),
     (''odt'', ''application/vnd.oasis.opendocument.text''),
     (''oth'', ''application/vnd.oasis.opendocument.text-web''),
     (''ott'', ''application/vnd.oasis.opendocument.text-template''),
     (''ods'', ''application/vnd.oasis.spreadsheet''),
     (''ots'', ''application/vnd.oasis.spreadsheet-template''),
     (''odc'', ''application/vnd.oasis.chart''),
     (''odf'', ''application/vnd.oasis.formula''),
     (''odb'', ''application/vnd.oasis.database''),
     (''odi'', ''application/vnd.oasis.image''),
     (''txt'', ''text/plain''),
     (''msg'', ''application/x-ole-storage''),
     (''jpg'', ''image/jpeg''),
     (''jpeg'', ''image/jpeg''),
     (''gif'', ''image/gif''),
     (''png'', ''image/png'')]"

definition fixCT :: "string \<Rightarrow> string \<Rightarrow> string" where
  "fixCT contentType fileName =
     (if contentType = ''application/zip'' \<or> contentType = ''application/x-zip-compressed'' then
        (let ext = Ext fileName in
         if length ext > 3 \<and> ext = ''.docx'' then
           ''application/vnd.openxmlformats-officedocument.wordprocessingml.document''
         else if length ext > 3 \<and> ext = ''.xlsx'' then
           ''application/vnd.openxmlformats-officedocument.spreadsheetml.sheet''
         else if length ext > 3 \<and> ext = ''.pptx'' then
           ''application/vnd.openxmlformats-officedocument.presentationml.presentation''
         else ''application/zip'')
      else if contentType = ''application/x-rar-compressed'' \<or> contentType = ''application/x-rar'' then
        ''application/rar''
      else if contentType = ''image/pdf'' then ''application/pdf''
      else contentType)"

text \<open>
  The two library calls of \<open>FixContentType\<close> are parameters: \<open>Match\<close> is
  \<^verbatim>\<open>mimemagic.Match(contentType, body)\<close> (the sniffed type, empty when nothing is
  recognised) and \<open>TypeByExtension\<close> is \<^verbatim>\<open>mime.TypeByExtension(ext)\<close>.
  The deferred function only logs. The first \<^verbatim>\<open>switch\<close> has an empty body.
\<close>

definition FixContentType ::
  "(string \<Rightarrow> bytes \<Rightarrow> string) \<Rightarrow> (string \<Rightarrow> string) \<Rightarrow> bytes \<Rightarrow> string \<Rightarrow> string \<Rightarrow> string" where
  "FixContentType Match TypeByExtension body contentType0 fileName =
     (let contentType = fixCT contentType0 fileName;
          ext = Ext fileName;
          useMagic = (ext = ''.pdf'' \<and> contentType \<noteq> ''application/pdf'')
      in
      if useMagic \<and> Match contentType body \<noteq> [] then fixCT (Match contentType body) fileName
      else
        (let c = GetConverter contentType None in
         if c = None \<and> Match contentType body \<noteq> [] then fixCT (Match contentType body) fileName
         else if fileName \<noteq> [] \<and>
                 (contentType = [] \<or> contentType = ''application/octet-stream'' \<or> c = None) \<and>
                 length (Ext fileName) > 3 then
           (case ExtContentType (tl (Ext fileName)) of
              Some nct \<Rightarrow> fixCT nct fileName
            | None \<Rightarrow>
                if TypeByExtension (Ext fileName) \<noteq> [] then fixCT (TypeByExtension (Ext fileName)) fileName
                else contentType)
         else contentType))"

section \<open>Errors and panics\<close>

text \<open>
  Go errors are values. \<open>errors_New\<close> and \<open>errors_Wrapf\<close> are the two constructors the
  package uses itself (the format string and its arguments are kept as they are);
  \<open>PathError\<close> is \<^verbatim>\<open>*os.PathError\<close>, which \<open>getFdf\<close> tells apart from all other errors;
  \<open>OtherError\<close> stands for every other error of the operating system, a library or a
  child process. A run-time panic is a value of its own type.
\<close>

datatype error =
    errors_New string
  | errors_Wrapf error string "string list"
  | PathError string
  | OtherError string

datatype panic =
    Fields_index_out_of_range nat nat
  | Parts_index_out_of_range int nat

section \<open>FDF templates (splitFdf, fieldParts)\<close>

definition fieldPartV :: bytes where
  "fieldPartV = ''\<newline><<\<newline>/V ()\<newline>''"

record fieldParts =
  Parts :: "bytes list"
  Fields :: "string list"
  Values :: "string \<rightharpoonup> string"

text \<open>
  The first loop of \<open>splitFdf\<close>: cut \<open>fdf\<close> at every occurrence of the marker, appending
  the piece before it to \<open>Parts\<close>; the rest after the last marker is the last part.
\<close>

function splitLoop :: "bytes list \<Rightarrow> bytes \<Rightarrow> bytes list" where
  "splitLoop parts fdf =
     (case Index fdf fieldPartV of
        None \<Rightarrow> parts @ [fdf]
      | Some i \<Rightarrow> splitLoop (parts @ [take i fdf]) (drop (i + length fieldPartV) fdf))"
  by pat_completeness auto

termination splitLoop
proof (relation "measure (\<lambda>(parts, fdf). length fdf)")
  show "wf (measure (\<lambda>(parts, fdf). length fdf))" by simp
next
  fix parts :: "bytes list" and fdf :: bytes and i
  assume found: "Index fdf fieldPartV = Some i"
  have bound: "Index s sep = Some k \<Longrightarrow> k + length sep \<le> length s"
    for s sep :: bytes and k
  proof (induction s arbitrary: k)
    case Nil
    then show ?case by (simp split: if_splits)
  next
    case (Cons x xs)
    show ?case
    proof (cases "HasPrefix (x # xs) sep")
      case True
      then have "length (take (length sep) (x # xs)) = length sep"
        by (simp only: HasPrefix_def)
      then have "length sep \<le> length (x # xs)" by (simp add: min_def split: if_splits)
      with True Cons.prems show ?thesis by simp
    next
      case False
      with Cons.prems obtain j where "Index xs sep = Some j" "k = Suc j" by auto
      with Cons.IH show ?thesis by simp
    qed
  qed
  from bound[OF found] have "i + 10 \<le> length fdf" by (simp add: fieldPartV_def)
  then show "((parts @ [take i fdf], drop (i + length fieldPartV) fdf), (parts, fdf))
             \<in> measure (\<lambda>(parts, fdf). length fdf)"
    by (simp add: fieldPartV_def)
qed

declare splitLoop.simps [simp del]

text \<open>
  The body of the second loop for one part: the field name between \<^verbatim>\<open>/T (\<close> and the next
  \<^verbatim>\<open>)\n>>\<close>, or \<open>None\<close> where the loop takes a \<^verbatim>\<open>continue\<close>. The slice
  \<^verbatim>\<open>part[i+4 : j]\<close> is \<open>take (j - (i + 4)) (drop (i + 4) part)\<close>; its bounds are
  always valid (lemma \<open>fieldKey_slice_bounds\<close>).
\<close>

definition fieldKey :: "bytes \<Rightarrow> string option" where
  "fieldKey part =
     (case Index part ''/T ('' of
        None \<Rightarrow> None
      | Some i \<Rightarrow>
          (case Index (drop i part) '')\<newline>>>'' of
             None \<Rightarrow> None
           | Some j0 \<Rightarrow> (let j = j0 + i in Some (take (j - (i + 4)) (drop (i + 4) part)))))"

fun fieldsLoop :: "fieldParts \<Rightarrow> bytes list \<Rightarrow> fieldParts" where
  "fieldsLoop fp [] = fp"
| "fieldsLoop fp (part # rest) =
     (case fieldKey part of
        None \<Rightarrow> fieldsLoop fp rest
      | Some key \<Rightarrow>
          fieldsLoop (fp\<lparr>Fields := Fields fp @ [key], Values := (Values fp)(key \<mapsto> [])\<rparr>) rest)"

definition splitFdf :: "bytes \<Rightarrow> fieldParts" where
  "splitFdf fdf =
     (let parts = splitLoop [] fdf;
          fp = \<lparr>Parts = parts, Fields = [], Values = Map.empty\<rparr>
      in fieldsLoop fp parts)"

text \<open>
  \<open>fieldParts.Set\<close>: the key must be present in \<open>Values\<close>.
\<close>

definition fieldParts_Set :: "fieldParts \<Rightarrow> string \<Rightarrow> string \<Rightarrow> error + fieldParts" where
  "fieldParts_Set fp key val =
     (case Values fp key of
        None \<Rightarrow> Inl (errors_New (''field '' @ key @ '' not exist''))
      | Some old \<Rightarrow> Inr (fp\<lparr>Values := (Values fp)(key \<mapsto> val)\<rparr>))"

text \<open>
  \<open>countErrWriter\<close> wraps a writer, counts the bytes written and keeps the first error.
  The wrapped \<^verbatim>\<open>io.Writer\<close> is a function from its state and the bytes to the new state,
  the number of bytes written and an error.
\<close>

type_synonym 'w writer = "'w \<Rightarrow> bytes \<Rightarrow> 'w \<times> int \<times> error option"

record 'w countErrWriter =
  cew_w :: 'w
  cew_err :: "error option"
  cew_n :: int

definition cew_Write :: "'w writer \<Rightarrow> 'w countErrWriter \<Rightarrow> bytes \<Rightarrow> 'w countErrWriter" where
  "cew_Write wr cew p =
     (if cew_err cew \<noteq> None then cew
      else (case wr (cew_w cew) p of
              (w', k, e) \<Rightarrow> cew\<lparr>cew_w := w', cew_n := cew_n cew + k, cew_err := e\<rparr>))"

text \<open>A \<^verbatim>\<open>bytes.Buffer\<close> as a writer: it appends and never fails.\<close>

definition buffer_Write :: "bytes writer" where
  "buffer_Write buf p = (buf @ p, int (length p), None)"

text \<open>
  One value of \<open>fieldParts.WriteTo\<close>: the empty value writes the marker as it is, any
  other value goes between the two halves of the marker, after the byte order mark, as
  UTF-16BE. \<open>enc\<close> is \<^verbatim>\<open>utf16.Encode([]rune(val))\<close>.
\<close>

definition writeValue ::
  "'w writer \<Rightarrow> (string \<Rightarrow> 16 word list) \<Rightarrow> 'w countErrWriter \<Rightarrow> string \<Rightarrow> 'w countErrWriter" where
  "writeValue wr enc cew val =
     (let len = length fieldPartV;
          fpv1 = take (len - 2) fieldPartV;
          fpv2 = drop (len - 2) fieldPartV
      in
      if length val = 0 then cew_Write wr cew fieldPartV
      else
        (let c1 = cew_Write wr cew fpv1;
             c2 = cew_Write wr c1 [char_of (0xfe :: nat), char_of (0xff :: nat)];
             c3 = fold (\<lambda>u c. cew_Write wr c [char_of (unat (drop_bit 8 u)), char_of (unat (u AND 0xff))]) (enc val) c2
         in cew_Write wr c3 fpv2))"

text \<open>
  The loop of \<open>WriteTo\<close> over \<open>fp.Parts\<close>; \<open>i\<close> is the index of the first part of
  \<open>parts\<close>, \<open>len\<close> is \<^verbatim>\<open>len(fp.Parts) - 1\<close>. Reading \<^verbatim>\<open>fp.Fields[i]\<close> out of range
  panics; a key missing from \<open>Values\<close> reads as the empty string.
\<close>

fun writeLoop ::
  "'w writer \<Rightarrow> (string \<Rightarrow> 16 word list) \<Rightarrow> fieldParts \<Rightarrow> int \<Rightarrow> nat \<Rightarrow> bytes list \<Rightarrow>
   'w countErrWriter \<Rightarrow> panic + 'w countErrWriter" where
  "writeLoop wr enc fp len i [] cew = Inr cew"
| "writeLoop wr enc fp len i (part # rest) cew =
     (if int i = len then Inr cew
      else
        (let cew1 = cew_Write wr cew part in
         if i \<ge> length (Fields fp) then Inl (Fields_index_out_of_range i (length (Fields fp)))
         else
           (let val = (case Values fp (Fields fp ! i) of None \<Rightarrow> [] | Some v \<Rightarrow> v);
                cew2 = writeValue wr enc cew1 val
            in if cew_err cew2 \<noteq> None then Inr cew2
               else writeLoop wr enc fp len (Suc i) rest cew2)))"

text \<open>
  \<open>fieldParts.WriteTo\<close> returns the count and the error of the writer; the model returns
  the writer as well. The last statement reads \<^verbatim>\<open>fp.Parts[length]\<close>, which panics when
  \<open>Parts\<close> is empty (\<open>length = -1\<close>).
\<close>

definition fieldParts_WriteTo ::
  "'w writer \<Rightarrow> (string \<Rightarrow> 16 word list) \<Rightarrow> fieldParts \<Rightarrow> 'w \<Rightarrow> panic + 'w countErrWriter" where
  "fieldParts_WriteTo wr enc fp w0 =
     (let cew = \<lparr>cew_w = w0, cew_err = None, cew_n = 0\<rparr>;
          len = int (length (Parts fp)) - 1
      in case writeLoop wr enc fp len 0 (Parts fp) cew of
           Inl p \<Rightarrow> Inl p
         | Inr cew' \<Rightarrow>
             if len < 0 \<or> len \<ge> int (length (Parts fp))
             then Inl (Parts_index_out_of_range len (length (Parts fp)))
             else Inr (cew_Write wr cew' (Parts fp ! nat len)))"

section \<open>Notions of the specification\<close>

text \<open>
  The major type of a content type: the part before the first slash, when there is a
  slash and something before it.
\<close>

definition majorType :: "string \<Rightarrow> string option" where
  "majorType contentType =
     (case Index contentType ''/'' of
        None \<Rightarrow> None
      | Some i \<Rightarrow> if i > 0 then Some (take i contentType) else None)"

text \<open>The content types that \<open>GetConverter\<close> matches exactly, before the prefix rules.\<close>

definition exactTypes :: "string set" where
  "exactTypes = {''application/pdf'', ''application/rtf'', ''text/plain'', ''text/html'',
     ''message/rfc822'', ''multipart/related'', ''application/x-pkcs7-signature''}"

text \<open>
  The number of occurrences of the template marker in a byte sequence, counted from the
  left without overlaps: \<open>countFrom k s\<close> skips \<open>k\<close> bytes and then looks for a marker at
  every position.
\<close>

fun countFrom :: "nat \<Rightarrow> bytes \<Rightarrow> nat" where
  "countFrom k [] = 0"
| "countFrom k (x # xs) =
     (if k = 0 \<and> HasPrefix (x # xs) fieldPartV then Suc (countFrom (length fieldPartV - 1) xs)
      else countFrom (k - 1) xs)"

definition markerCount :: "bytes \<Rightarrow> nat" where
  "markerCount fdf = countFrom 0 fdf"

text \<open>The parts of a template joined again, with the marker between neighbours.\<close>

fun joinParts :: "bytes list \<Rightarrow> bytes" where
  "joinParts [] = []"
| "joinParts [p] = p"
| "joinParts (p # q # ps) = p @ fieldPartV @ joinParts (q # ps)"

text \<open>
  Sample inputs. Two sniffers for \<open>Match\<close>: one that recognises nothing and one that
  recognises the PDF magic bytes; a system extension table without entries. Two form
  data files in the layout of \<^verbatim>\<open>pdftk generate_fdf\<close>: one with two empty fields, and one
  whose first field already has a value, so that only the second has the marker.
\<close>

definition sniff_nothing :: "string \<Rightarrow> bytes \<Rightarrow> string" where
  "sniff_nothing contentType body = []"



definition no_system_types :: "string \<Rightarrow> string" where
  "no_system_types ext = []"

definition fdf_two_empty :: bytes where
  "fdf_two_empty =
     ''/Fields [\<newline><<\<newline>/V ()\<newline>/T (a)\<newline>>> \<newline><<\<newline>/V ()\<newline>/T (b)\<newline>>>]''"

definition fdf_prefilled :: bytes where
  "fdf_prefilled =
     ''/Fields [\<newline><<\<newline>/V (x)\<newline>/T (a)\<newline>>> \<newline><<\<newline>/V ()\<newline>/T (b)\<newline>>>]''"

text \<open>A stand-in for \<^verbatim>\<open>utf16.Encode\<close> on ASCII text: one code unit per byte.\<close>

definition ascii_utf16 :: "string \<Rightarrow> 16 word list" where
  "ascii_utf16 s = map (\<lambda>c. of_nat (of_char c)) s"

text \<open>
  The field names a template knows: the keys of its mapping from field names to values,
  which is what \<open>fieldParts.Set\<close> looks a key up in.
\<close>

definition fieldNames :: "fieldParts \<Rightarrow> string set" where
  "fieldNames fp = dom (Values fp)"

section \<open>The world outside the process\<close>

text \<open>
  The PDF functions run child processes and read and write files. The state they act on
  is a record: the file system (of an arbitrary type \<open>'fs\<close>, only touched through the
  operations of the environment), the two package variables \<open>alreadyCleaned\<close> and
  \<open>pdfCleanStatus\<close>, and the list of the commands spawned so far (the command path
  followed by its arguments, oldest first). The Go map \<open>alreadyCleaned\<close> is an
  association list, so that its \<^verbatim>\<open>len\<close> is the length of the list.
  The mutexes and the calls of \<^verbatim>\<open>Log\<close> have no effect on this state and are left out.
\<close>

record 'fs world =
  fsys :: 'fs
  alreadyCleaned :: "(string \<times> bool) list"
  pdfCleanStatus :: int
  spawned :: "string list list"

text \<open>How a command is run: the three ways the package uses.\<close>

datatype runner = CombinedOutput | RunWithTimeout | RunWithContext

text \<open>
  The environment collects what the code reads but does not define: the configuration
  (\<open>ConfPdftk\<close> \<dots> \<open>LeaveTempFiles\<close>; the configured strings are never \<^verbatim>\<open>nil\<close>
  pointers), the child processes, the operating system and the libraries, and the
  functions of this package that live in other files (\<open>fileExists\<close>, \<open>copyFile\<close>,
  \<open>moveFile\<close>, \<open>unlink\<close>, \<open>nakeFilename\<close>, \<open>fileContentHash\<close>; running a command under
  its timeout or context is part of \<open>exec_Run\<close>).

  \<open>exec_Run how cmd dir stdin w\<close> is the run of one child process in the world \<open>w\<close>: its
  captured output, its error and the file system it leaves.
  \<open>os_Open\<close> is the error of opening a file, \<open>file_contents\<close> the bytes a reader gets
  from it and the error that ends the reading, if any.
\<close>

record 'fs env =
  ConfPdftk :: string
  ConfPdfClean :: string
  ConfMutool :: string
  ConfGs :: string
  popplerOk :: "string \<Rightarrow> string"
  Workdir :: string
  LeaveTempFiles :: bool
  exec_Run :: "runner \<Rightarrow> string list \<Rightarrow> string \<Rightarrow> bytes \<Rightarrow> 'fs world \<Rightarrow> bytes \<times> error option \<times> 'fs"
  exec_LookPath :: "string \<Rightarrow> error option"
  filepath_Abs :: "string \<Rightarrow> error + string"
  filepath_Join :: "string list \<Rightarrow> string"
  filepath_Base :: "string \<Rightarrow> string"
  strconv_Atoi :: "string \<Rightarrow> int \<times> error option"
  strconv_Itoa :: "int \<Rightarrow> string"
  rand_Int :: "'fs world \<Rightarrow> int"
  sha1_Sum :: "bytes \<Rightarrow> bytes"
  base64_URLEncoding :: "bytes \<Rightarrow> string"
  utf16_Encode :: "string \<Rightarrow> 16 word list"
  gob_Decode :: "bytes \<times> error option \<Rightarrow> error + fieldParts"
  gob_Encode :: "fieldParts \<Rightarrow> error + bytes"
  temp_LinkOrCopy :: "string \<Rightarrow> string \<Rightarrow> 'fs \<Rightarrow> error option \<times> 'fs"
  os_Open :: "string \<Rightarrow> 'fs \<Rightarrow> error option"
  file_contents :: "string \<Rightarrow> 'fs \<Rightarrow> bytes \<times> error option"
  os_Readdirnames :: "string \<Rightarrow> 'fs \<Rightarrow> string list \<times> error option"
  os_Rename :: "string \<Rightarrow> string \<Rightarrow> 'fs \<Rightarrow> error option \<times> 'fs"
  os_Mkdir :: "string \<Rightarrow> 'fs \<Rightarrow> error option \<times> 'fs"
  os_Remove :: "string \<Rightarrow> 'fs \<Rightarrow> error option \<times> 'fs"
  os_OpenFile :: "string \<Rightarrow> 'fs \<Rightarrow> error option \<times> 'fs"
  file_Write :: "string \<Rightarrow> bytes \<Rightarrow> 'fs \<Rightarrow> error option \<times> 'fs"
  file_Close :: "string \<Rightarrow> 'fs \<Rightarrow> error option \<times> 'fs"
  fileExists :: "string \<Rightarrow> 'fs \<Rightarrow> bool"
  copyFile :: "string \<Rightarrow> string \<Rightarrow> 'fs \<Rightarrow> error option \<times> 'fs"
  moveFile :: "string \<Rightarrow> string \<Rightarrow> 'fs \<Rightarrow> error option \<times> 'fs"
  unlink :: "string \<Rightarrow> string \<Rightarrow> 'fs \<Rightarrow> error option \<times> 'fs"
  nakeFilename :: "string \<Rightarrow> string"
  fileContentHash :: "string \<Rightarrow> 'fs \<Rightarrow> error + bytes"

section \<open>Running commands (call, callAt, execute)\<close>

text \<open>
  Every child process goes through \<open>spawn\<close>, which asks the environment for the outcome
  and records the command.
\<close>

definition spawn ::
  "'fs env \<Rightarrow> runner \<Rightarrow> string list \<Rightarrow> string \<Rightarrow> bytes \<Rightarrow> 'fs world \<Rightarrow>
   (bytes \<times> error option) \<times> 'fs world" where
  "spawn env how cmd dir stdin w =
     (case exec_Run env how cmd dir stdin w of
        (out, e, fs') \<Rightarrow> ((out, e), w\<lparr>fsys := fs', spawned := spawned w @ [cmd]\<rparr>))"

definition execute ::
  "'fs env \<Rightarrow> string list \<Rightarrow> string \<Rightarrow> bytes \<Rightarrow> 'fs world \<Rightarrow> error option \<times> 'fs world" where
  "execute env cmd dir stdin w =
     (case spawn env RunWithTimeout cmd dir stdin w of
        ((errout, Some err), w') \<Rightarrow>
          (Some (errors_Wrapf err ''%#v while converting %s'' (cmd @ [errout])), w')
      | ((errout, None), w') \<Rightarrow> (None, w'))"

definition call :: "'fs env \<Rightarrow> string \<Rightarrow> string list \<Rightarrow> 'fs world \<Rightarrow> error option \<times> 'fs world" where
  "call env what args w = execute env (what # args) [] [] w"

definition callAt ::
  "'fs env \<Rightarrow> string \<Rightarrow> string \<Rightarrow> string list \<Rightarrow> 'fs world \<Rightarrow> error option \<times> 'fs world" where
  "callAt env what dir args w = execute env (what # args) dir [] w"

section \<open>Page count (pdfPageNum, PdfPageNum)\<close>

text \<open>\<^verbatim>\<open>bytes.Trim(s, cutset)\<close> for a cutset of single bytes.\<close>

definition Trim :: "bytes \<Rightarrow> string \<Rightarrow> bytes" where
  "Trim s cutset =
     rev (dropWhile (\<lambda>c. c \<in> set cutset) (rev (dropWhile (\<lambda>c. c \<in> set cutset) s)))"

definition getLine :: "bytes \<Rightarrow> string \<Rightarrow> string" where
  "getLine hay needle =
     (case Index hay (CHR 0x0A # needle) of
        None \<Rightarrow> []
      | Some i \<Rightarrow>
          (let line = drop (i + 1 + length needle) hay in
           case Index line [CHR 0x0A] of
             None \<Rightarrow> []
           | Some j \<Rightarrow> Trim (take j line) [CHR '' '', CHR 0x09, CHR 0x0D, CHR 0x0A]))"

text \<open>The command with which \<open>pdfPageNum\<close> probes a file.\<close>

definition probeCmd :: "'fs env \<Rightarrow> string \<Rightarrow> string list" where
  "probeCmd env srcfn =
     (if popplerOk env ''pdfinfo'' \<noteq> [] then [popplerOk env ''pdfinfo'', srcfn]
      else [ConfPdftk env, srcfn, ''dump_data_utf8''])"

definition pdfPageNum ::
  "'fs env \<Rightarrow> string \<Rightarrow> 'fs world \<Rightarrow> (int \<times> bool \<times> error option) \<times> 'fs world" where
  "pdfPageNum env srcfn w =
     (let pdfinfo = (popplerOk env ''pdfinfo'' \<noteq> []) in
      case spawn env CombinedOutput (probeCmd env srcfn) [] [] w of
        ((out, e), w') \<Rightarrow>
          if length out = 0 then ((- 1, False, e), w')
          else if pdfinfo then
            (let encrypted = (getLine out ''Encrypted:'' = ''yes'') in
             case strconv_Atoi env (getLine out ''Pages:'') of
               (numberofpages, err) \<Rightarrow> ((numberofpages, encrypted, err), w'))
          else
            (let encrypted = (Index out '' password '' \<noteq> None) in
             case strconv_Atoi env (getLine out ''NumberOfPages:'') of
               (numberofpages, err) \<Rightarrow> ((numberofpages, encrypted, err), w')))"

section \<open>Cleaning (getHash, isAlreadyCleaned, PdfRewrite, PdfClean)\<close>

definition pcNotChecked :: int where "pcNotChecked = 0"
definition pcNothing :: int where "pcNothing = - 1"
definition pcPdfClean :: int where "pcPdfClean = 1"
definition pcMutool :: int where "pcMutool = 2"

text \<open>\<^verbatim>\<open>filepath.IsAbs\<close> on a Unix system.\<close>

definition IsAbs :: "string \<Rightarrow> bool" where
  "IsAbs path = HasPrefix path ''/''"

definition getHash :: "'fs env \<Rightarrow> string \<Rightarrow> 'fs \<Rightarrow> string" where
  "getHash env fn fs =
     (case os_Open env fn fs of
        Some e \<Rightarrow> []
      | None \<Rightarrow> base64_URLEncoding env (sha1_Sum env (fst (file_contents env fn fs))))"

text \<open>
  When \<^verbatim>\<open>filepath.Abs\<close> fails, \<open>isAlreadyCleaned\<close> only logs and goes on with the path
  that \<^verbatim>\<open>Abs\<close> returned, which is empty.
\<close>

definition isAlreadyCleaned :: "'fs env \<Rightarrow> string \<Rightarrow> 'fs world \<Rightarrow> bool" where
  "isAlreadyCleaned env fn0 w =
     (let fn = (if \<not> IsAbs fn0
                then (case filepath_Abs env fn0 of Inl e \<Rightarrow> [] | Inr p \<Rightarrow> p)
                else fn0)
      in
      if map_of (alreadyCleaned w) fn \<noteq> None then True
      else
        (let hsh = getHash env fn (fsys w) in
         if hsh = [] then False
         else if map_of (alreadyCleaned w) hsh \<noteq> None then True
         else False))"

definition xToX ::
  "'fs env \<Rightarrow> string \<Rightarrow> string \<Rightarrow> bool \<Rightarrow> 'fs world \<Rightarrow> error option \<times> 'fs world" where
  "xToX env destfn srcfn tops w =
     (let gsOpts =
        (if tops then
           [''-q'', ''-dNOPAUSE'', ''-dBATCH'', ''-P-'', ''-dSAFER'',
            ''-sDEVICE=ps2write'', ''-sOutputFile='' @ destfn, ''-c'', ''save'', ''pop'',
            ''-f'', srcfn]
         else
           [''-P-'', ''-dSAFER'', ''-dNOPAUSE'', ''-dCompatibilityLevel=1.4'',
            ''-dPDFSETTINGS=/printer'', ''-dUseCIEColor=true'',
            ''-q'', ''-dBATCH'', ''-sDEVICE=pdfwrite'', ''-sstdout=%stderr'',
            ''-sOutputFile='' @ destfn,
            ''-P-'', ''-dSAFER'', ''-dCompatibilityLevel=1.4'',
            ''-c'', ''.setpdfwrite'', ''-f'', srcfn])
      in case call env (ConfGs env) gsOpts w of
           (Some err, w') \<Rightarrow>
             (Some (errors_Wrapf err ''converting %s to %s with %s'' [srcfn, destfn, ConfGs env]), w')
         | (None, w') \<Rightarrow> (None, w'))"

definition PdfToPs :: "'fs env \<Rightarrow> string \<Rightarrow> string \<Rightarrow> 'fs world \<Rightarrow> error option \<times> 'fs world" where
  "PdfToPs env destfn srcfn w = xToX env destfn srcfn True w"

definition PsToPdf :: "'fs env \<Rightarrow> string \<Rightarrow> string \<Rightarrow> 'fs world \<Rightarrow> error option \<times> 'fs world" where
  "PsToPdf env destfn srcfn w = xToX env destfn srcfn False w"

text \<open>
  \<open>PdfRewrite\<close>: the deferred \<open>unlink\<close> of the PostScript file is registered after
  \<open>PdfToPs\<close> has succeeded and runs when the function returns, whatever it returns.
\<close>

definition PdfRewrite ::
  "'fs env \<Rightarrow> string \<Rightarrow> string \<Rightarrow> 'fs world \<Rightarrow> error option \<times> 'fs world" where
  "PdfRewrite env destfn srcfn w =
     (let psfn = nakeFilename env srcfn @ ''-pp.ps'' in
      case PdfToPs env psfn srcfn w of
        (Some err, w1) \<Rightarrow> (Some err, w1)
      | (None, w1) \<Rightarrow>
          (let pdffn2 = (if destfn = srcfn then psfn @ ''.pdf'' else destfn);
               r = (case PsToPdf env pdffn2 psfn w1 of
                      (Some err, w2) \<Rightarrow> (Some err, w2)
                    | (None, w2) \<Rightarrow>
                        (case moveFile env pdffn2 destfn (fsys w2) of
                           (res, fs3) \<Rightarrow> (res, w2\<lparr>fsys := fs3\<rparr>)))
           in if \<not> LeaveTempFiles env
              then (fst r, (snd r)\<lparr>fsys := snd (unlink env psfn ''rewritten'' (fsys (snd r)))\<rparr>)
              else r))"

text \<open>The first check of the cleaning tools, done once, while \<open>pdfCleanStatus\<close> is \<open>pcNotChecked\<close>.\<close>

definition checkCleaners :: "'fs env \<Rightarrow> int \<Rightarrow> int" where
  "checkCleaners env status =
     (if status = pcNotChecked then
        (let s1 = (if ConfPdfClean env \<noteq> [] then
                     (if exec_LookPath env (ConfPdfClean env) \<noteq> None then pcNothing
                      else pcPdfClean)
                   else pcNothing)
         in
         if ConfMutool env \<noteq> [] then
           (if exec_LookPath env (ConfMutool env) \<noteq> None then s1
            else if s1 = pcNothing then pcMutool
            else s1 OR pcMutool)
         else s1)
      else status)"

text \<open>
  The branch of \<open>PdfClean\<close> that runs a cleaning tool, and then probes the cleaned file
  for encryption (the result is only logged).
\<close>

definition runCleaner ::
  "'fs env \<Rightarrow> int \<Rightarrow> string \<Rightarrow> 'fs world \<Rightarrow> error option \<times> 'fs world" where
  "runCleaner env status fn w =
     (let cleaner = (if status AND pcPdfClean \<noteq> 0 then ConfPdfClean env else ConfMutool env);
          args = (if status AND pcPdfClean \<noteq> 0 then [''-ggg'', fn, fn @ ''-cleaned.pdf'']
                  else [''clean'', ''-ggg'', fn, fn @ ''-cleaned.pdf''])
      in case call env cleaner args w of
           (Some err, w1) \<Rightarrow> (Some (errors_Wrapf err (''clean with '' @ cleaner) []), w1)
         | (None, w1) \<Rightarrow>
             (case pdfPageNum env (fn @ ''-cleaned.pdf'') w1 of
                ((n, encrypted, e), w2) \<Rightarrow> (None, w2)))"

text \<open>The end of \<open>PdfClean\<close>: the memo is emptied when it has more than 1024 entries, then the
  path and, when there is one, the content hash are recorded.\<close>

definition remember :: "'fs env \<Rightarrow> string \<Rightarrow> 'fs world \<Rightarrow> 'fs world" where
  "remember env fn w =
     (let m0 = alreadyCleaned w;
          m1 = (if length m0 > 1024 then [] else m0);
          m2 = AList.update fn True m1;
          hsh = getHash env fn (fsys w);
          m3 = (if hsh \<noteq> [] then AList.update hsh True m2 else m2)
      in w\<lparr>alreadyCleaned := m3\<rparr>)"

text \<open>
  \<open>PdfClean\<close>. In the source the rewrite branch is guarded by \<^verbatim>\<open>!cleaned || encrypted\<close>,
  with both variables still \<^verbatim>\<open>false\<close> there.
\<close>

definition PdfClean :: "'fs env \<Rightarrow> string \<Rightarrow> 'fs world \<Rightarrow> error option \<times> 'fs world" where
  "PdfClean env fn0 w =
     (case (if \<not> IsAbs fn0 then filepath_Abs env fn0 else Inr fn0) of
        Inl err \<Rightarrow> (Some err, w)
      | Inr fn \<Rightarrow>
          if isAlreadyCleaned env fn w then (None, w)
          else
            (let w0 = w\<lparr>pdfCleanStatus := checkCleaners env (pdfCleanStatus w)\<rparr>;
                 status = pdfCleanStatus w0;
                 cleaned = False;
                 encrypted = False
             in
             case (if status \<noteq> pcNothing then runCleaner env status fn w0
                   else if \<not> cleaned \<or> encrypted then PdfRewrite env (fn @ ''-cleaned.pdf'') fn w0
                   else (None, w0)) of
               (Some err, w1) \<Rightarrow> (Some err, w1)
             | (None, w1) \<Rightarrow>
                 (case os_Rename env (fn @ ''-cleaned.pdf'') fn (fsys w1) of
                    (Some err, fs2) \<Rightarrow> (Some err, w1\<lparr>fsys := fs2\<rparr>)
                  | (None, fs2) \<Rightarrow> (None, remember env fn (w1\<lparr>fsys := fs2\<rparr>)))))"

text \<open>\<open>PdfPageNum\<close>: the error of \<open>PdfClean\<close> is only logged.\<close>

definition PdfPageNum ::
  "'fs env \<Rightarrow> string \<Rightarrow> 'fs world \<Rightarrow> (int \<times> error option) \<times> 'fs world" where
  "PdfPageNum env srcfn w =
     (case pdfPageNum env srcfn w of
        ((numberofpages, encrypted, err), w1) \<Rightarrow>
          if err = None then ((numberofpages, None), w1)
          else
            (case PdfClean env srcfn w1 of
               (cleanErr, w2) \<Rightarrow>
                 (case pdfPageNum env srcfn w2 of
                    ((numberofpages2, encrypted2, err2), w3) \<Rightarrow> ((numberofpages2, err2), w3))))"

section \<open>Splitting and merging (PdfSplit, PdfMerge)\<close>

text \<open>\<^verbatim>\<open>strings.Replace(s, old, new, -1)\<close> for an \<open>old\<close> of one byte.\<close>

definition Replace_byte :: "string \<Rightarrow> char \<Rightarrow> string \<Rightarrow> string" where
  "Replace_byte s old new = concat (map (\<lambda>c. if c = old then new else [c]) s)"

text \<open>
  The loop of \<open>PdfSplit\<close> that runs from the last file name to the first and removes the
  names without the prefix or without the suffix \<^verbatim>\<open>.pdf\<close>; \<open>k\<close> is \<open>i + 1\<close>.
\<close>

fun dropOthers :: "string \<Rightarrow> nat \<Rightarrow> string list \<Rightarrow> string list" where
  "dropOthers prefix 0 filenames = filenames"
| "dropOthers prefix (Suc i) filenames =
     (let fn = filenames ! i in
      if \<not> (HasPrefix fn prefix \<and> HasSuffix fn ''.pdf'')
      then dropOthers prefix i (take i filenames @ drop (Suc i) filenames)
      else dropOthers prefix i filenames)"

text \<open>
  The part of \<open>PdfSplit\<close> after the page count: a fresh directory, the page separation
  tool, and the sorted list of the files it wrote.
\<close>

definition separatePages ::
  "'fs env \<Rightarrow> string \<Rightarrow> 'fs world \<Rightarrow> (string list \<times> error option) \<times> 'fs world" where
  "separatePages env srcfn0 w =
     (case (if \<not> IsAbs srcfn0 then filepath_Abs env srcfn0 else Inr srcfn0) of
        Inl err \<Rightarrow> (([], Some err), w)
      | Inr srcfn \<Rightarrow>
          (let destdir = filepath_Join env [Workdir env,
                 filepath_Base env srcfn @ ''-'' @ strconv_Itoa env (rand_Int env w) @ ''-split'']
           in
           case (if \<not> fileExists env destdir (fsys w) then os_Mkdir env destdir (fsys w)
                 else (None, fsys w)) of
             (Some err, fs1) \<Rightarrow> (([], Some err), w\<lparr>fsys := fs1\<rparr>)
           | (None, fs1) \<Rightarrow>
               (let w1 = w\<lparr>fsys := fs1\<rparr>;
                    prefix = Replace_byte (filepath_Base env srcfn) CHR ''%'' ''!P!'' @ ''-''
                in
                case (if popplerOk env ''pdfseparate'' \<noteq> [] then
                        (case callAt env (popplerOk env ''pdfseparate'') destdir
                                [srcfn, filepath_Join env [destdir, prefix @ ''%d.pdf'']] w1 of
                           (Some err, w2) \<Rightarrow>
                             (Some (errors_Wrapf err ''executing %s'' [popplerOk env ''pdfseparate'']), w2)
                         | (None, w2) \<Rightarrow> (None, w2))
                      else
                        (case callAt env (ConfPdftk env) destdir
                                [srcfn, ''burst'', ''output'', prefix @ ''%03d.pdf''] w1 of
                           (Some err, w2) \<Rightarrow>
                             (Some (errors_Wrapf err ''executing %s'' [ConfPdftk env]), w2)
                         | (None, w2) \<Rightarrow> (None, w2))) of
                  (Some err, w2) \<Rightarrow> (([], Some err), w2)
                | (None, w2) \<Rightarrow>
                    (case os_Open env destdir (fsys w2) of
                       Some e \<Rightarrow> (([], Some (errors_Wrapf e ''opening destdir %s'' [destdir])), w2)
                     | None \<Rightarrow>
                         (case os_Readdirnames env destdir (fsys w2) of
                            (filenames, Some err) \<Rightarrow>
                              ((filenames, Some (errors_Wrapf err ''listing %s'' [destdir])), w2)
                          | (filenames, None) \<Rightarrow>
                              (let kept = dropOthers prefix (length filenames) filenames in
                               ((map (\<lambda>fn. filepath_Join env [destdir, fn]) (sort kept), None),
                                w2)))))))"

text \<open>
  \<open>PdfSplit\<close>. The first test of the source reads the named result \<^verbatim>\<open>err\<close>, which is
  still \<^verbatim>\<open>nil\<close> there, not the error \<^verbatim>\<open>e\<close> of \<open>PdfPageNum\<close>; \<^verbatim>\<open>errors.Wrapf\<close> of a
  \<^verbatim>\<open>nil\<close> error is \<^verbatim>\<open>nil\<close>.
\<close>

definition PdfSplit ::
  "'fs env \<Rightarrow> string \<Rightarrow> 'fs world \<Rightarrow> (string list \<times> error option) \<times> 'fs world" where
  "PdfSplit env srcfn w =
     (let err = (None :: error option) in
      case PdfPageNum env srcfn w of
        ((n, e), w1) \<Rightarrow>
          if err \<noteq> None then
            (([], map_option (\<lambda>e'. errors_Wrapf e' ''cannot determine page number of %s'' [srcfn]) e),
             w1)
          else if n = 0 then (([], Some (errors_New (''0 pages in '' @ srcfn))), w1)
          else if n = 1 then (([] @ [srcfn], None), w1)
          else separatePages env srcfn w1)"

text \<open>\<open>PdfMerge\<close>; the context is part of how \<open>exec_Run\<close> runs the command.\<close>

definition PdfMerge ::
  "'fs env \<Rightarrow> string \<Rightarrow> string list \<Rightarrow> 'fs world \<Rightarrow> error option \<times> 'fs world" where
  "PdfMerge env destfn filenames w =
     (if length filenames = 0 then (Some (errors_New ''filenames required!''), w)
      else if length filenames = 1 then
        (case temp_LinkOrCopy env (filenames ! 0) destfn (fsys w) of
           (res, fs') \<Rightarrow> (res, w\<lparr>fsys := fs'\<rparr>))
      else
        (let pdfunite = popplerOk env ''pdfunite'' in
         case (if pdfunite \<noteq> [] then
                 (case spawn env RunWithContext (pdfunite # filenames @ [destfn]) [] [] w of
                    ((out, e), w1) \<Rightarrow> (e = None, out, w1))
               else (False, [], w)) of
           (True, buf, w1) \<Rightarrow> (None, w1)
         | (False, buf, w1) \<Rightarrow>
             (case spawn env RunWithContext
                     (ConfPdftk env # filenames @ [''cat'', ''output'', destfn]) [] [] w1 of
                ((out, Some err), w2) \<Rightarrow> (Some (errors_Wrapf err (buf @ out) []), w2)
              | ((out, None), w2) \<Rightarrow> (None, w2))))"

section \<open>Form filling (getFdf, PdfFillFdf)\<close>

definition PdfDumpFdf ::
  "'fs env \<Rightarrow> string \<Rightarrow> string \<Rightarrow> 'fs world \<Rightarrow> error option \<times> 'fs world" where
  "PdfDumpFdf env destfn inpfn w =
     (case call env (ConfPdftk env) [inpfn, ''generate_fdf'', ''output'', destfn] w of
        (Some err, w') \<Rightarrow> (Some (errors_Wrapf err ''pdftk generate_fdf'' []), w')
      | (None, w') \<Rightarrow> (None, w'))"

text \<open>\<^verbatim>\<open>ioutil.ReadFile\<close>: the bytes read and the error, if any.\<close>

definition ReadFile :: "'fs env \<Rightarrow> string \<Rightarrow> 'fs \<Rightarrow> bytes \<times> error option" where
  "ReadFile env path fs =
     (case os_Open env path fs of
        Some e \<Rightarrow> ([], Some e)
      | None \<Rightarrow> file_contents env path fs)"

definition isPathError :: "error \<Rightarrow> bool" where
  "isPathError e = (case e of PathError s \<Rightarrow> True | _ \<Rightarrow> False)"

text \<open>The end of \<open>getFdf\<close>: the parsed template is written to the cache file; every
  failure there is only logged.\<close>

definition saveGob :: "'fs env \<Rightarrow> string \<Rightarrow> fieldParts \<Rightarrow> 'fs \<Rightarrow> 'fs" where
  "saveGob env path fp fs =
     (case os_OpenFile env path fs of
        (Some e, fs1) \<Rightarrow> fs1
      | (None, fs1) \<Rightarrow>
          (case gob_Encode env fp of
             Inl e \<Rightarrow> fs1
           | Inr data \<Rightarrow>
               (case file_Write env path data fs1 of
                  (Some e, fs2) \<Rightarrow> fs2
                | (None, fs2) \<Rightarrow>
                    (case file_Close env path fs2 of
                       (Some e, fs3) \<Rightarrow> snd (os_Remove env path fs3)
                     | (None, fs3) \<Rightarrow> fs3))))"

definition getFdf ::
  "'fs env \<Rightarrow> string \<Rightarrow> 'fs world \<Rightarrow> (error + fieldParts) \<times> 'fs world" where
  "getFdf env inpfn w =
     (case fileContentHash env inpfn (fsys w) of
        Inl err \<Rightarrow> (Inl err, w)
      | Inr hsh \<Rightarrow>
          (let fdfFn = filepath_Join env [Workdir env, base64_URLEncoding env hsh @ ''.fdf''];
               cached = (case os_Open env (fdfFn @ ''.gob'') (fsys w) of
                           Some e \<Rightarrow> None
                         | None \<Rightarrow>
                             (case gob_Decode env (file_contents env (fdfFn @ ''.gob'') (fsys w)) of
                                Inl e \<Rightarrow> None
                              | Inr fp \<Rightarrow> Some fp))
           in
           case cached of
             Some fp \<Rightarrow> (Inr fp, w)
           | None \<Rightarrow>
               (case (case ReadFile env fdfFn (fsys w) of
                        (fdf, None) \<Rightarrow> (Inr fdf, w)
                      | (fdf, Some err) \<Rightarrow>
                          if \<not> isPathError err
                          then (Inr fdf, w\<lparr>fsys := snd (os_Remove env fdfFn (fsys w))\<rparr>)
                          else
                            (case PdfDumpFdf env fdfFn inpfn w of
                               (Some err', w1) \<Rightarrow> (Inl err', w1)
                             | (None, w1) \<Rightarrow>
                                 (case ReadFile env fdfFn (fsys w1) of
                                    (fdf', Some err') \<Rightarrow> (Inl err', w1)
                                  | (fdf', None) \<Rightarrow> (Inr fdf', w1)))) of
                  (Inl err, w1) \<Rightarrow> (Inl err, w1)
                | (Inr fdf, w1) \<Rightarrow>
                    (let fp = splitFdf fdf in
                     (Inr fp, w1\<lparr>fsys := saveGob env (fdfFn @ ''.gob'') fp (fsys w1)\<rparr>)))))"

text \<open>
  The loop of \<open>PdfFillFdf\<close> over the map \<open>values\<close>. The order in which Go visits a map is
  not fixed: \<open>values\<close> is the list of the pairs in the order of the visit.
\<close>

fun setValues :: "fieldParts \<Rightarrow> (string \<times> string) list \<Rightarrow> error + fieldParts" where
  "setValues fp [] = Inr fp"
| "setValues fp ((k, v) # rest) =
     (case fieldParts_Set fp k v of
        Inl err \<Rightarrow> Inl err
      | Inr fp' \<Rightarrow> setValues fp' rest)"

definition PdfFillFdf ::
  "'fs env \<Rightarrow> string \<Rightarrow> string \<Rightarrow> (string \<times> string) list \<Rightarrow> 'fs world \<Rightarrow>
   panic + (error option \<times> 'fs world)" where
  "PdfFillFdf env destfn inpfn values w =
     (if length values = 0 then
        (case copyFile env inpfn destfn (fsys w) of
           (res, fs') \<Rightarrow> Inr (res, w\<lparr>fsys := fs'\<rparr>))
      else
        (case getFdf env inpfn w of
           (Inl err, w1) \<Rightarrow> Inr (Some err, w1)
         | (Inr fp, w1) \<Rightarrow>
             (case setValues fp values of
                Inl err \<Rightarrow> Inr (Some err, w1)
              | Inr fp' \<Rightarrow>
                  (case fieldParts_WriteTo buffer_Write (utf16_Encode env) fp' [] of
                     Inl p \<Rightarrow> Inl p
                   | Inr cew \<Rightarrow>
                       (case cew_err cew of
                          Some err \<Rightarrow> Inr (Some err, w1)
                        | None \<Rightarrow>
                            Inr (execute env
                                   [ConfPdftk env, inpfn, ''fill_form'', ''-'', ''output'', destfn]
                                   [] (cew_w cew) w1))))))"

section \<open>A small concrete environment\<close>

text \<open>
  An environment to run the functions on: the file system is an association list from
  paths to contents; \<^verbatim>\<open>pdfinfo\<close> reports one page for a file that starts with the PDF
  magic bytes, \<^verbatim>\<open>pdfclean\<close> writes a cleaned copy of an existing file unless its content
  is \<^verbatim>\<open>unreadable\<close>, \<^verbatim>\<open>pdftk\<close> dumps
  the form data \<open>fdf_two_empty\<close> of an existing file, and every other command fails. The
  digests and encodings are stand-ins; the cache of parsed templates never decodes.
\<close>

type_synonym demo_fs = "(string \<times> bytes) list"

definition demo_Run ::
  "runner \<Rightarrow> string list \<Rightarrow> string \<Rightarrow> bytes \<Rightarrow> demo_fs world \<Rightarrow> bytes \<times> error option \<times> demo_fs" where
  "demo_Run how cmd dir stdin w =
     (if length cmd = 2 \<and> cmd ! 0 = ''pdfinfo'' then
        (case map_of (fsys w) (cmd ! 1) of
           None \<Rightarrow> (''I/O Error'', Some (OtherError ''exit status 1''), fsys w)
         | Some content \<Rightarrow>
             if HasPrefix content ''%PDF-''
             then (''Title: demo\<newline>Pages: 1\<newline>Encrypted: no\<newline>'', None, fsys w)
             else (''Syntax Error'', Some (OtherError ''exit status 1''), fsys w))
      else if length cmd = 4 \<and> cmd ! 0 = ''pdfclean'' then
        (case map_of (fsys w) (cmd ! 2) of
           None \<Rightarrow> ([], Some (OtherError ''exit status 1''), fsys w)
         | Some content \<Rightarrow>
             if content = ''unreadable'' then ([], Some (OtherError ''exit status 1''), fsys w)
             else ([], None, AList.update (cmd ! 3) ''%PDF-1.4 cleaned'' (fsys w)))
      else if length cmd = 5 \<and> cmd ! 0 = ''pdftk'' \<and> cmd ! 2 = ''generate_fdf'' then
        (case map_of (fsys w) (cmd ! 1) of
           None \<Rightarrow> ([], Some (OtherError ''exit status 1''), fsys w)
         | Some content \<Rightarrow> ([], None, AList.update (cmd ! 4) fdf_two_empty (fsys w)))
      else ([], Some (OtherError ''executable file not found''), fsys w))"

definition demo_Atoi :: "string \<Rightarrow> int \<times> error option" where
  "demo_Atoi s =
     (if s \<noteq> [] \<and> list_all (\<lambda>c. CHR ''0'' \<le> c \<and> c \<le> CHR ''9'') s
      then (fold (\<lambda>c n. 10 * n + (int (of_char c) - 48)) s 0, None)
      else (0, Some (OtherError ''invalid syntax'')))"

definition demo_copy :: "string \<Rightarrow> string \<Rightarrow> demo_fs \<Rightarrow> error option \<times> demo_fs" where
  "demo_copy src dst fs =
     (case map_of fs src of
        None \<Rightarrow> (Some (PathError src), fs)
      | Some content \<Rightarrow> (None, AList.update dst content fs))"

definition demo_move :: "string \<Rightarrow> string \<Rightarrow> demo_fs \<Rightarrow> error option \<times> demo_fs" where
  "demo_move src dst fs =
     (case map_of fs src of
        None \<Rightarrow> (Some (PathError src), fs)
      | Some content \<Rightarrow> (None, AList.update dst content (AList.delete src fs)))"

definition demo_remove :: "string \<Rightarrow> demo_fs \<Rightarrow> error option \<times> demo_fs" where
  "demo_remove path fs =
     (if map_of fs path = None then (Some (PathError path), fs) else (None, AList.delete path fs))"

definition demo_env :: "demo_fs env" where
  "demo_env =
     \<lparr>ConfPdftk = ''pdftk'',
      ConfPdfClean = ''pdfclean'',
      ConfMutool = [],
      ConfGs = ''gs'',
      popplerOk = (\<lambda>k. if k = ''pdfinfo'' then ''pdfinfo'' else []),
      Workdir = ''/tmp'',
      LeaveTempFiles = False,
      exec_Run = demo_Run,
      exec_LookPath = (\<lambda>p. if p = ''pdfclean'' \<or> p = ''pdftk'' then None
                            else Some (OtherError ''executable file not found'')),
      filepath_Abs = (\<lambda>p. Inr (''/work/'' @ p)),
      filepath_Join = (\<lambda>ps. case ps of [] \<Rightarrow> [] | p # qs \<Rightarrow> foldl (\<lambda>a b. a @ ''/'' @ b) p qs),
      filepath_Base = (\<lambda>p. rev (takeWhile (\<lambda>c. c \<noteq> CHR ''/'') (rev p))),
      strconv_Atoi = demo_Atoi,
      strconv_Itoa = (\<lambda>n. ''0''),
      rand_Int = (\<lambda>w. 0),
      sha1_Sum = (\<lambda>b. b),
      base64_URLEncoding = (\<lambda>b. b),
      utf16_Encode = ascii_utf16,
      gob_Decode = (\<lambda>d. Inl (OtherError ''unexpected EOF'')),
      gob_Encode = (\<lambda>fp. Inr []),
      temp_LinkOrCopy = demo_copy,
      os_Open = (\<lambda>p fs. if map_of fs p = None then Some (PathError p) else None),
      file_contents = (\<lambda>p fs. case map_of fs p of None \<Rightarrow> ([], Some (PathError p))
                                | Some content \<Rightarrow> (content, None)),
      os_Readdirnames = (\<lambda>p fs. ([], None)),
      os_Rename = demo_move,
      os_Mkdir = (\<lambda>p fs. (None, fs)),
      os_Remove = demo_remove,
      os_OpenFile = (\<lambda>p fs. (None, AList.update p [] fs)),
      file_Write = (\<lambda>p d fs. (None, AList.update p d fs)),
      file_Close = (\<lambda>p fs. (None, fs)),
      fileExists = (\<lambda>p fs. map_of fs p \<noteq> None),
      copyFile = demo_copy,
      moveFile = demo_move,
      unlink = (\<lambda>p tag fs. demo_remove p fs),
      nakeFilename = (\<lambda>p. p),
      fileContentHash = (\<lambda>p fs. case map_of fs p of None \<Rightarrow> Inl (PathError p)
                                  | Some content \<Rightarrow> Inr content)\<rparr>"

text \<open>A world with a PDF, a damaged PDF, a file no tool can read and a PDF form; nothing cleaned, nothing run yet.\<close>

definition demo_world :: "demo_fs world" where
  "demo_world =
     \<lparr>fsys = [(''/in/one.pdf'', ''%PDF-1.4 one page''),
              (''/in/damaged.pdf'', ''damaged''),
              (''/in/unreadable.pdf'', ''unreadable''),
              (''/in/form.pdf'', ''%PDF-1.4 form'')],
      alreadyCleaned = [],
      pdfCleanStatus = 0,
      spawned = []\<rparr>"

section \<open>Lemmas on strings\<close>

lemma Index_Some_bound: "Index s sep = Some i \<Longrightarrow> i + length sep \<le> length s"
proof (induction s arbitrary: i)
  case Nil
  then show ?case by (simp split: if_splits)
next
  case (Cons x xs)
  then show ?case
    by (cases "HasPrefix (x # xs) sep")
       (auto simp: HasPrefix_def min_def intro: order_trans dest!: arg_cong[where f=length]
             split: if_splits)
qed

lemma Index_Some_prefix: "Index s sep = Some i \<Longrightarrow> HasPrefix (drop i s) sep"
  by (induction s arbitrary: i) (auto split: if_splits simp: HasPrefix_def)

lemma Index_Some_decomp:
  assumes "Index s sep = Some i"
  shows "s = take i s @ sep @ drop (i + length sep) s"
proof -
  from Index_Some_prefix[OF assms] have "take (length sep) (drop i s) = sep"
    by (simp add: HasPrefix_def)
  then have "drop i s = sep @ drop (length sep) (drop i s)"
    by (metis append_take_drop_id)
  then have "s = take i s @ sep @ drop (length sep) (drop i s)"
    by (metis append_take_drop_id)
  then show ?thesis by (simp add: add.commute)
qed

lemma HasSuffix_iff: "HasSuffix s p \<longleftrightarrow> (\<exists>q. s = q @ p)"
proof
  assume "HasSuffix s p"
  then have "s = take (length s - length p) s @ p"
    unfolding HasSuffix_def by (metis append_take_drop_id)
  then show "\<exists>q. s = q @ p" ..
next
  assume "\<exists>q. s = q @ p"
  then show "HasSuffix s p" by (auto simp: HasSuffix_def)
qed

lemma ext_loop_dot:
  "CHR ''/'' \<notin> set s \<Longrightarrow> CHR ''.'' \<notin> set s \<Longrightarrow>
   ext_loop (rev s @ CHR ''.'' # p) acc = CHR ''.'' # s @ acc"
  by (induction s arbitrary: acc rule: rev_induct) auto

lemma Ext_append_dot:
  "CHR ''/'' \<notin> set s \<Longrightarrow> CHR ''.'' \<notin> set s \<Longrightarrow> Ext (p @ CHR ''.'' # s) = CHR ''.'' # s"
  using ext_loop_dot[of s "rev p" "[]"] by (simp add: Ext_def)

lemma ext_loop_suffix: "ext_loop r acc \<noteq> [] \<Longrightarrow> \<exists>q. rev r @ acc = q @ ext_loop r acc"
  by (induction r acc rule: ext_loop.induct) (auto split: if_splits)

lemma Ext_is_suffix: "Ext path \<noteq> [] \<Longrightarrow> \<exists>q. path = q @ Ext path"
  using ext_loop_suffix[of "rev path" "[]"] by (simp add: Ext_def)

text \<open>A file name has the extension \<open>.s\<close> exactly when it ends in \<open>.s\<close>.\<close>

lemma Ext_eq_iff_HasSuffix:
  assumes "CHR ''/'' \<notin> set s" "CHR ''.'' \<notin> set s"
  shows "Ext fileName = CHR ''.'' # s \<longleftrightarrow> HasSuffix fileName (CHR ''.'' # s)"
proof
  assume e: "Ext fileName = CHR ''.'' # s"
  then have "Ext fileName \<noteq> []" by simp
  from Ext_is_suffix[OF this] e show "HasSuffix fileName (CHR ''.'' # s)"
    by (simp add: HasSuffix_iff)
next
  assume "HasSuffix fileName (CHR ''.'' # s)"
  then obtain q where "fileName = q @ CHR ''.'' # s" by (auto simp: HasSuffix_iff)
  then show "Ext fileName = CHR ''.'' # s" using Ext_append_dot[OF assms] by simp
qed

lemma Ext_docx: "Ext fileName = ''.docx'' \<longleftrightarrow> HasSuffix fileName ''.docx''"
  by (rule Ext_eq_iff_HasSuffix) simp_all

lemma Ext_xlsx: "Ext fileName = ''.xlsx'' \<longleftrightarrow> HasSuffix fileName ''.xlsx''"
  by (rule Ext_eq_iff_HasSuffix) simp_all

lemma Ext_pptx: "Ext fileName = ''.pptx'' \<longleftrightarrow> HasSuffix fileName ''.pptx''"
  by (rule Ext_eq_iff_HasSuffix) simp_all

section \<open>Converter selection\<close>

lemma GetConverter_empty: "GetConverter [] None = None"
  by (simp add: GetConverter_def isOfficeType_def byMajorType_def HasPrefix_def)

lemma GetConverter_octet: "GetConverter ''application/octet-stream'' None = None"
  by (simp add: GetConverter_def isOfficeType_def byMajorType_def HasPrefix_def)

lemma GetConverter_zip: "GetConverter ''application/zip'' None = None"
  by (simp add: GetConverter_def isOfficeType_def byMajorType_def HasPrefix_def)

lemma GetConverter_Some_nonempty:
  "GetConverter c None \<noteq> None \<Longrightarrow> c \<noteq> [] \<and> c \<noteq> ''application/octet-stream''"
  using GetConverter_empty GetConverter_octet by auto

lemma GetConverter_openxml:
  "GetConverter (''application/vnd.openxmlformats-officedocument.'' @ s) None = Some OfficeToPdf"
  by (simp add: GetConverter_def isOfficeType_def HasPrefix_def)

text \<open>
  C1, as stated, fails: \<^verbatim>\<open>application/octet-stream\<close> matches no exact case and no office
  prefix, its major type is \<^verbatim>\<open>application\<close>, and \<open>GetConverter\<close> returns \<^verbatim>\<open>nil\<close> for it,
  not the office converter.
\<close>

theorem GetConverter_octet_stream_not_Office:
  "''application/octet-stream'' \<notin> exactTypes \<and>
   \<not> isOfficeType ''application/octet-stream'' \<and>
   majorType ''application/octet-stream'' = Some ''application'' \<and>
   GetConverter ''application/octet-stream'' None \<noteq> Some OfficeToPdf"
  by (simp add: exactTypes_def isOfficeType_def majorType_def GetConverter_def byMajorType_def
        HasPrefix_def)

text \<open>
  C1, amended: a content type that matches none of the exact cases and none of the office
  prefixes, and whose major type is neither \<^verbatim>\<open>image\<close> nor \<^verbatim>\<open>text\<close>, has no converter:
  \<open>GetConverter\<close> returns \<^verbatim>\<open>nil\<close>, whatever the media type parameters. There is no
  fallback to the office converter.
\<close>

theorem GetConverter_unknown_is_nil:
  assumes "contentType \<notin> exactTypes"
    and "\<not> isOfficeType contentType"
    and "majorType contentType \<noteq> Some ''image''"
    and "majorType contentType \<noteq> Some ''text''"
  shows "GetConverter contentType mediaType = None"
  using assms
  by (auto simp: exactTypes_def GetConverter_def byMajorType_def majorType_def Let_def
           split: option.splits)

theorem GetConverter_unknown_is_nil_witness:
  "''application/x-tar'' \<notin> exactTypes \<and> \<not> isOfficeType ''application/x-tar'' \<and>
   majorType ''application/x-tar'' \<noteq> Some ''image'' \<and>
   majorType ''application/x-tar'' \<noteq> Some ''text'' \<and>
   GetConverter ''application/x-tar'' None = None"
proof -
  have a: "''application/x-tar'' \<notin> exactTypes" by (simp add: exactTypes_def)
  have b: "\<not> isOfficeType ''application/x-tar''" by (simp add: isOfficeType_def HasPrefix_def)
  have c: "majorType ''application/x-tar'' \<noteq> Some ''image''" by (simp add: majorType_def HasPrefix_def)
  have d: "majorType ''application/x-tar'' \<noteq> Some ''text''" by (simp add: majorType_def HasPrefix_def)
  from GetConverter_unknown_is_nil[OF a b c d, of None] a b c d show ?thesis by simp
qed

section \<open>Content type resolution\<close>


lemma fixCT_zip:
  assumes "contentType = ''application/zip'' \<or> contentType = ''application/x-zip-compressed''"
  shows "fixCT contentType fileName =
     (if Ext fileName = ''.docx'' then
        ''application/vnd.openxmlformats-officedocument.wordprocessingml.document''
      else if Ext fileName = ''.xlsx'' then
        ''application/vnd.openxmlformats-officedocument.spreadsheetml.sheet''
      else if Ext fileName = ''.pptx'' then
        ''application/vnd.openxmlformats-officedocument.presentationml.presentation''
      else ''application/zip'')"
  using assms by (auto simp: fixCT_def Let_def)


text \<open>A type with a converter and a file name that is not \<^verbatim>\<open>.pdf\<close>: nothing is sniffed.\<close>

lemma FixContentType_has_converter:
  assumes "fixCT contentType fileName = c" "GetConverter c None \<noteq> None"
    and "Ext fileName \<noteq> ''.pdf''"
  shows "FixContentType Match T body contentType fileName = c"
proof -
  from GetConverter_Some_nonempty[OF assms(2)]
  have "c \<noteq> []" "c \<noteq> ''application/octet-stream''" by simp_all
  with assms show ?thesis by (auto simp: FixContentType_def Let_def)
qed








text \<open>
  C9: for a declared content type \<^verbatim>\<open>application/zip\<close> or its alias
  \<^verbatim>\<open>application/x-zip-compressed\<close>, \<open>fixCT\<close> returns the Office XML content type that
  corresponds to a file name ending in \<^verbatim>\<open>.docx\<close>, \<^verbatim>\<open>.xlsx\<close> or \<^verbatim>\<open>.pptx\<close>, and plain
  \<^verbatim>\<open>application/zip\<close> for every other file name.
\<close>

theorem fixCT_zip_by_extension:
  assumes zip: "contentType = ''application/zip'' \<or> contentType = ''application/x-zip-compressed''"
  shows
   "(HasSuffix fileName ''.docx'' \<longrightarrow>
       fixCT contentType fileName =
         ''application/vnd.openxmlformats-officedocument.wordprocessingml.document'') \<and>
    (HasSuffix fileName ''.xlsx'' \<longrightarrow>
       fixCT contentType fileName =
         ''application/vnd.openxmlformats-officedocument.spreadsheetml.sheet'') \<and>
    (HasSuffix fileName ''.pptx'' \<longrightarrow>
       fixCT contentType fileName =
         ''application/vnd.openxmlformats-officedocument.presentationml.presentation'') \<and>
    (\<not> HasSuffix fileName ''.docx'' \<and> \<not> HasSuffix fileName ''.xlsx'' \<and>
     \<not> HasSuffix fileName ''.pptx'' \<longrightarrow>
       fixCT contentType fileName = ''application/zip'')"
  by (simp add: fixCT_zip[OF zip] Ext_docx[symmetric] Ext_xlsx[symmetric] Ext_pptx[symmetric])

theorem fixCT_zip_by_extension_witness:
  "fixCT ''application/zip'' ''report.docx''
     = ''application/vnd.openxmlformats-officedocument.wordprocessingml.document'' \<and>
   fixCT ''application/x-zip-compressed'' ''sheet.xlsx''
     = ''application/vnd.openxmlformats-officedocument.spreadsheetml.sheet'' \<and>
   fixCT ''application/zip'' ''slides.pptx''
     = ''application/vnd.openxmlformats-officedocument.presentationml.presentation'' \<and>
   fixCT ''application/zip'' ''archive.zip'' = ''application/zip'' \<and>
   fixCT ''application/x-zip-compressed'' ''REPORT.DOCX'' = ''application/zip''"
proof -
  have z: "''application/zip'' = ''application/zip'' \<or>
           ''application/zip'' = ''application/x-zip-compressed''" by simp
  have x: "''application/x-zip-compressed'' = ''application/zip'' \<or>
           ''application/x-zip-compressed'' = ''application/x-zip-compressed''" by simp
  have 1: "HasSuffix ''report.docx'' ''.docx''" by (simp add: HasSuffix_def)
  have 2: "HasSuffix ''sheet.xlsx'' ''.xlsx''" by (simp add: HasSuffix_def)
  have 3: "HasSuffix ''slides.pptx'' ''.pptx''" by (simp add: HasSuffix_def)
  have 4: "\<not> HasSuffix ''archive.zip'' ''.docx'' \<and> \<not> HasSuffix ''archive.zip'' ''.xlsx'' \<and>
     \<not> HasSuffix ''archive.zip'' ''.pptx''" by (simp add: HasSuffix_def)
  have 5: "\<not> HasSuffix ''REPORT.DOCX'' ''.docx'' \<and> \<not> HasSuffix ''REPORT.DOCX'' ''.xlsx'' \<and>
     \<not> HasSuffix ''REPORT.DOCX'' ''.pptx''" by (simp add: HasSuffix_def)
  from fixCT_zip_by_extension[OF z, of "''report.docx''"] 1
  have a: "fixCT ''application/zip'' ''report.docx''
     = ''application/vnd.openxmlformats-officedocument.wordprocessingml.document''" by blast
  from fixCT_zip_by_extension[OF x, of "''sheet.xlsx''"] 2
  have b: "fixCT ''application/x-zip-compressed'' ''sheet.xlsx''
     = ''application/vnd.openxmlformats-officedocument.spreadsheetml.sheet''" by blast
  from fixCT_zip_by_extension[OF z, of "''slides.pptx''"] 3
  have c: "fixCT ''application/zip'' ''slides.pptx''
     = ''application/vnd.openxmlformats-officedocument.presentationml.presentation''" by blast
  from fixCT_zip_by_extension[OF z, of "''archive.zip''"] 4
  have d: "fixCT ''application/zip'' ''archive.zip'' = ''application/zip''" by blast
  from fixCT_zip_by_extension[OF x, of "''REPORT.DOCX''"] 5
  have e: "fixCT ''application/x-zip-compressed'' ''REPORT.DOCX'' = ''application/zip''" by blast
  from a b c d e show ?thesis by blast
qed

text \<open>
  What the whole resolution makes of such a part. With an Office XML file name,
  \<open>FixContentType\<close> returns what \<open>fixCT\<close> returned, whatever the bytes, the sniffer and
  the system extension table. With any other file name it goes on from
  \<^verbatim>\<open>application/zip\<close>, for which there is no converter: it returns what the sniffer
  answers, if anything, else what the extension tables give for an extension of more than
  three bytes, else \<^verbatim>\<open>application/zip\<close>.
\<close>

lemma FixContentType_zip_office:
  assumes zip: "contentType = ''application/zip'' \<or> contentType = ''application/x-zip-compressed''"
    and ext: "HasSuffix fileName ''.docx'' \<or> HasSuffix fileName ''.xlsx'' \<or> HasSuffix fileName ''.pptx''"
  shows "FixContentType Match T body contentType fileName = fixCT contentType fileName"
proof -
  from ext have e: "Ext fileName = ''.docx'' \<or> Ext fileName = ''.xlsx'' \<or> Ext fileName = ''.pptx''"
    by (simp add: Ext_docx Ext_xlsx Ext_pptx)
  then have np: "Ext fileName \<noteq> ''.pdf''" by auto
  from e obtain s where "fixCT contentType fileName = ''application/vnd.openxmlformats-officedocument.'' @ s"
    by (auto simp: fixCT_zip[OF zip])
  then have "GetConverter (fixCT contentType fileName) None \<noteq> None"
    by (simp only: GetConverter_openxml) simp
  from FixContentType_has_converter[OF refl this np] show ?thesis .
qed

lemma FixContentType_zip_other:
  assumes zip: "contentType = ''application/zip'' \<or> contentType = ''application/x-zip-compressed''"
    and other: "\<not> HasSuffix fileName ''.docx''" "\<not> HasSuffix fileName ''.xlsx''"
      "\<not> HasSuffix fileName ''.pptx''"
  shows "FixContentType Match T body contentType fileName =
     (if Match ''application/zip'' body \<noteq> [] then fixCT (Match ''application/zip'' body) fileName
      else if fileName \<noteq> [] \<and> 3 < length (Ext fileName) then
        (case ExtContentType (tl (Ext fileName)) of
           Some nct \<Rightarrow> fixCT nct fileName
         | None \<Rightarrow>
             if T (Ext fileName) \<noteq> [] then fixCT (T (Ext fileName)) fileName
             else ''application/zip'')
      else ''application/zip'')"
proof -
  from other have z: "fixCT contentType fileName = ''application/zip''"
    by (simp add: fixCT_zip[OF zip] Ext_docx Ext_xlsx Ext_pptx)
  show ?thesis
    unfolding FixContentType_def Let_def z by (auto simp: GetConverter_zip split: option.splits)
qed

lemma FixContentType_zip_xls:
  "FixContentType sniff_nothing no_system_types [] ''application/zip'' ''a.xls''
     = ''application/vnd.ms-excel''"
  by (simp add: FixContentType_def fixCT_def Ext_def GetConverter_zip
        sniff_nothing_def ExtContentType_def)

section \<open>FDF templates\<close>

lemma marker_length: "length fieldPartV = 10"
  by (simp add: fieldPartV_def)

lemma drop_marker_shorter:
  "Index fdf fieldPartV = Some i \<Longrightarrow> length (drop (i + length fieldPartV) fdf) < length fdf"
  using Index_Some_bound[of fdf fieldPartV i] by (simp add: marker_length)

lemma splitLoop_acc: "splitLoop parts fdf = parts @ splitLoop [] fdf"
proof (induction fdf arbitrary: parts rule: measure_induct_rule[where f=length])
  case (less fdf)
  show ?case
  proof (cases "Index fdf fieldPartV")
    case None
    then show ?thesis by (subst splitLoop.simps, subst (2) splitLoop.simps) simp
  next
    case (Some i)
    note IH = less.IH[OF drop_marker_shorter[OF Some]]
    show ?thesis
      by (subst splitLoop.simps, subst (2) splitLoop.simps)
         (simp add: Some IH[of "parts @ [take i fdf]"] IH[of "[take i fdf]"])
  qed
qed

lemma splitLoop_unfold:
  "splitLoop [] fdf =
     (case Index fdf fieldPartV of
        None \<Rightarrow> [fdf]
      | Some i \<Rightarrow> take i fdf # splitLoop [] (drop (i + length fieldPartV) fdf))"
  by (subst splitLoop.simps) (simp add: splitLoop_acc[of "[_]"] split: option.splits)

lemma splitLoop_nonempty: "splitLoop [] fdf \<noteq> []"
  by (subst splitLoop_unfold) (simp split: option.splits)

lemma countFrom_skip: "countFrom k s = countFrom 0 (drop k s)"
proof (induction s arbitrary: k)
  case Nil
  then show ?case by simp
next
  case (Cons x xs)
  show ?case
  proof (cases k)
    case 0
    then show ?thesis by simp
  next
    case (Suc j)
    then show ?thesis using Cons.IH[of j] by simp
  qed
qed

text \<open>The count of the specification follows the search of the code.\<close>

lemma countFrom_Index:
  "countFrom 0 s =
     (case Index s fieldPartV of
        None \<Rightarrow> 0
      | Some i \<Rightarrow> Suc (countFrom 0 (drop (i + length fieldPartV) s)))"
proof (induction s)
  case Nil
  then show ?case by (simp add: fieldPartV_def)
next
  case (Cons x xs)
  show ?case
  proof (cases "HasPrefix (x # xs) fieldPartV")
    case True
    then show ?thesis
      using countFrom_skip[of "length fieldPartV - 1" xs] by (simp add: marker_length)
  next
    case False
    then show ?thesis using Cons.IH by (simp split: option.splits)
  qed
qed

lemma splitLoop_length: "length (splitLoop [] fdf) = markerCount fdf + 1"
proof (induction fdf rule: measure_induct_rule[where f=length])
  case (less fdf)
  show ?case
  proof (cases "Index fdf fieldPartV")
    case None
    then show ?thesis
      by (subst splitLoop_unfold) (simp add: markerCount_def countFrom_Index[of fdf])
  next
    case (Some i)
    from less.IH[OF drop_marker_shorter[OF Some]] Some show ?thesis
      by (subst splitLoop_unfold) (simp add: markerCount_def countFrom_Index[of fdf])
  qed
qed

lemma splitLoop_join: "joinParts (splitLoop [] fdf) = fdf"
proof (induction fdf rule: measure_induct_rule[where f=length])
  case (less fdf)
  show ?case
  proof (cases "Index fdf fieldPartV")
    case None
    then show ?thesis by (subst splitLoop_unfold) simp
  next
    case (Some i)
    obtain q qs where r: "splitLoop [] (drop (i + length fieldPartV) fdf) = q # qs"
      using splitLoop_nonempty by (cases "splitLoop [] (drop (i + length fieldPartV) fdf)") auto
    from less.IH[OF drop_marker_shorter[OF Some]] r
    have "joinParts (q # qs) = drop (i + length fieldPartV) fdf" by simp
    with Index_Some_decomp[OF Some] show ?thesis
      by (subst splitLoop_unfold) (simp add: Some r)
  qed
qed

text \<open>The second loop of \<open>splitFdf\<close> keeps the parts and collects the keys in their order.\<close>

lemma fieldsLoop_Parts: "Parts (fieldsLoop fp ps) = Parts fp"
  by (induction ps arbitrary: fp) (auto split: option.splits)

lemma fieldsLoop_Fields: "Fields (fieldsLoop fp ps) = Fields fp @ List.map_filter fieldKey ps"
  by (induction ps arbitrary: fp) (auto split: option.splits)

lemma fieldsLoop_Values_dom:
  "dom (Values (fieldsLoop fp ps)) = dom (Values fp) \<union> set (List.map_filter fieldKey ps)"
  by (induction ps arbitrary: fp) (auto split: option.splits)

lemma splitFdf_Parts: "Parts (splitFdf fdf) = splitLoop [] fdf"
  by (simp add: splitFdf_def Let_def fieldsLoop_Parts)

lemma splitFdf_Fields: "Fields (splitFdf fdf) = List.map_filter fieldKey (Parts (splitFdf fdf))"
  by (simp add: splitFdf_def Let_def fieldsLoop_Fields fieldsLoop_Parts)

lemma splitFdf_Values_dom: "dom (Values (splitFdf fdf)) = set (Fields (splitFdf fdf))"
  by (simp add: splitFdf_def Let_def fieldsLoop_Fields fieldsLoop_Values_dom)

text \<open>The slice \<^verbatim>\<open>part[i+4 : j]\<close> of \<open>fieldKey\<close> never panics: \<open>i + 4 \<le> j \<le> len(part)\<close>.\<close>

lemma fieldKey_slice_bounds:
  assumes i: "Index part ''/T ('' = Some i"
    and j: "Index (drop i part) '')\<newline>>>'' = Some j0"
  shows "i + 4 \<le> j0 + i \<and> j0 + i \<le> length part"
proof -
  define d where "d = drop i part"
  from Index_Some_prefix[OF i] have p: "take 4 d = ''/T (''"
    by (simp add: HasPrefix_def eval_nat_numeral d_def)
  from Index_Some_prefix[OF j] have q: "take 4 (drop j0 d) = '')\<newline>>>''"
    by (simp add: HasPrefix_def eval_nat_numeral d_def)
  from Index_Some_bound[OF j] have b: "j0 + 4 \<le> length d" by (simp add: d_def)
  have "4 \<le> j0"
  proof (rule ccontr)
    assume "\<not> 4 \<le> j0"
    then have lt: "j0 < 4" by simp
    have "d ! j0 = drop j0 d ! 0" using b by simp
    also have "\<dots> = take 4 (drop j0 d) ! 0" by simp
    also have "\<dots> = CHR '')''" by (simp only: q) simp
    finally have x: "d ! j0 = CHR '')''" .
    have "d ! j0 = take 4 d ! j0" using lt by simp
    also have "\<dots> = ''/T ('' ! j0" by (simp only: p)
    finally have "''/T ('' ! j0 = CHR '')''" using x by simp
    moreover from lt have "j0 = 0 \<or> j0 = 1 \<or> j0 = 2 \<or> j0 = 3" by arith
    ultimately show False by (auto simp: nth_Cons')
  qed
  moreover from b have "j0 + i \<le> length part" by (simp add: d_def)
  ultimately show ?thesis by simp
qed

text \<open>The loop of \<open>WriteTo\<close> reads \<open>Fields\<close>, never \<open>Parts\<close>, by index.\<close>

lemma writeLoop_no_Parts_panic:
  "writeLoop wr enc fp len i ps cew \<noteq> Inl (Parts_index_out_of_range l n)"
  by (induction ps arbitrary: i cew) (auto simp: Let_def)

text \<open>
  C2 at a failing input: form data in the layout of \<^verbatim>\<open>pdftk generate_fdf\<close> whose first
  field already has a value and whose second field is empty. There is one marker, so
  \<open>splitFdf\<close> gives two parts, but both field names are collected: two parts and two
  fields, where the invariant asks for three parts.
\<close>

theorem splitFdf_prefilled_breaks_invariant:
  "length (Parts (splitFdf fdf_prefilled)) = 2 \<and>
   Fields (splitFdf fdf_prefilled) = [''a'', ''b''] \<and>
   length (Parts (splitFdf fdf_prefilled)) \<noteq> length (Fields (splitFdf fdf_prefilled)) + 1"
proof -
  have p: "length (Parts (splitFdf fdf_prefilled)) = 2" by code_simp
  have f: "Fields (splitFdf fdf_prefilled) = [''a'', ''b'']" by code_simp
  from p f show ?thesis by simp
qed

text \<open>
  With that template, a value set for the empty field \<open>b\<close> is not written at all: the only
  value slot is filled from the first name, \<open>a\<close>, and the output is the form data as it
  was. A marker that no field name follows makes \<open>WriteTo\<close> panic on \<open>Fields\<close>.
\<close>

lemma WriteTo_prefilled_drops_value:
  "map_sum id cew_w
     (fieldParts_WriteTo buffer_Write ascii_utf16
        ((splitFdf fdf_prefilled)\<lparr>Values := [''a'' \<mapsto> [], ''b'' \<mapsto> ''v'']\<rparr>) [])
   = Inr fdf_prefilled"
  by code_simp

lemma WriteTo_marker_without_name_panics:
  "map_sum id cew_w (fieldParts_WriteTo buffer_Write ascii_utf16 (splitFdf fieldPartV) [])
   = Inl (Fields_index_out_of_range 0 0)"
  by code_simp

text \<open>
  C10: for every input byte sequence, the \<open>Parts\<close> of the template that \<open>splitFdf\<close>
  returns is not empty: its length is the number of markers in the input plus one (and
  the parts, joined by the marker, are the input). So the index \<^verbatim>\<open>len(fp.Parts) - 1\<close>
  with which \<open>WriteTo\<close> reads the last part is in bounds, and \<open>WriteTo\<close> never panics on
  \<open>Parts\<close>, for any writer.
\<close>

theorem splitFdf_Parts_nonempty:
  "Parts (splitFdf fdf) \<noteq> [] \<and>
   length (Parts (splitFdf fdf)) = markerCount fdf + 1 \<and>
   joinParts (Parts (splitFdf fdf)) = fdf \<and>
   0 \<le> int (length (Parts (splitFdf fdf))) - 1 \<and>
   int (length (Parts (splitFdf fdf))) - 1 < int (length (Parts (splitFdf fdf))) \<and>
   fieldParts_WriteTo wr enc (splitFdf fdf) w0 \<noteq> Inl (Parts_index_out_of_range l n)"
proof -
  have ne: "Parts (splitFdf fdf) \<noteq> []" by (simp add: splitFdf_Parts splitLoop_nonempty)
  then have pos: "0 < length (Parts (splitFdf fdf))" by simp
  have "fieldParts_WriteTo wr enc (splitFdf fdf) w0 \<noteq> Inl (Parts_index_out_of_range l n)"
    using pos writeLoop_no_Parts_panic[of wr enc "splitFdf fdf"]
    by (auto simp: fieldParts_WriteTo_def Let_def split: sum.splits)
  with ne pos show ?thesis
    by (simp add: splitFdf_Parts splitLoop_length splitLoop_join)
qed

theorem splitFdf_Parts_nonempty_witness:
  "length (Parts (splitFdf fdf_two_empty)) = 3 \<and>
   joinParts (Parts (splitFdf fdf_two_empty)) = fdf_two_empty \<and>
   fieldParts_WriteTo buffer_Write ascii_utf16 (splitFdf fdf_two_empty) []
     \<noteq> Inl (Parts_index_out_of_range (-1) 0)"
proof -
  have "markerCount fdf_two_empty = 2" by code_simp
  with splitFdf_Parts_nonempty[of fdf_two_empty buffer_Write ascii_utf16 "[]" "-1" 0]
  show ?thesis by simp
qed

section \<open>Commands and the record of what was spawned\<close>

lemma spawn_spawned [simp]:
  "spawned (snd (spawn env how cmd dir stdin w)) = spawned w @ [cmd]"
  by (simp add: spawn_def split: prod.splits)

lemma spawn_memo [simp]:
  "alreadyCleaned (snd (spawn env how cmd dir stdin w)) = alreadyCleaned w"
  "pdfCleanStatus (snd (spawn env how cmd dir stdin w)) = pdfCleanStatus w"
  by (simp_all add: spawn_def split: prod.splits)

lemma execute_spawned [simp]:
  "spawned (snd (execute env cmd dir stdin w)) = spawned w @ [cmd]"
proof -
  obtain out e w' where s: "spawn env RunWithTimeout cmd dir stdin w = ((out, e), w')"
    by (metis prod.exhaust)
  from spawn_spawned[of env RunWithTimeout cmd dir stdin w] s
  have "spawned w' = spawned w @ [cmd]" by simp
  with s show ?thesis by (simp add: execute_def split: option.splits)
qed

lemma execute_memo [simp]:
  "alreadyCleaned (snd (execute env cmd dir stdin w)) = alreadyCleaned w"
proof -
  obtain out e w' where s: "spawn env RunWithTimeout cmd dir stdin w = ((out, e), w')"
    by (metis prod.exhaust)
  from spawn_memo(1)[of env RunWithTimeout cmd dir stdin w] s
  have "alreadyCleaned w' = alreadyCleaned w" by simp
  with s show ?thesis by (simp add: execute_def split: option.splits)
qed

lemma call_spawned [simp]:
  "spawned (snd (call env what args w)) = spawned w @ [what # args]"
  by (simp add: call_def)

lemma pdfPageNum_spawned [simp]:
  "spawned (snd (pdfPageNum env srcfn w)) = spawned w @ [probeCmd env srcfn]"
proof -
  obtain out e w' where s: "spawn env CombinedOutput (probeCmd env srcfn) [] [] w = ((out, e), w')"
    by (metis prod.exhaust)
  from spawn_spawned[of env CombinedOutput "probeCmd env srcfn" "[]" "[]" w] s
  have "spawned w' = spawned w @ [probeCmd env srcfn]" by simp
  with s show ?thesis by (simp add: pdfPageNum_def Let_def split: prod.splits)
qed

section \<open>PdfSplit on a single page\<close>

text \<open>
  C6: when the page count that \<open>PdfPageNum\<close> reports for the source is exactly 1,
  \<open>PdfSplit\<close> returns the list that holds the input path and nothing else, with no error,
  and leaves the world as the page count left it: no directory or file is made and no
  page separation tool is run. When the first probe answers without an error, that world
  is the one the single run of the probe left.
\<close>

theorem PdfSplit_single_page:
  assumes "fst (fst (PdfPageNum env srcfn w)) = 1"
  shows "PdfSplit env srcfn w = (([srcfn], None), snd (PdfPageNum env srcfn w)) \<and>
         (snd (snd (fst (pdfPageNum env srcfn w))) = None \<longrightarrow>
            snd (PdfSplit env srcfn w) = snd (pdfPageNum env srcfn w) \<and>
            spawned (snd (PdfSplit env srcfn w)) = spawned w @ [probeCmd env srcfn])"
proof -
  obtain n e w1 where p: "PdfPageNum env srcfn w = ((n, e), w1)"
    by (metis prod.exhaust)
  with assms have n: "n = 1" by simp
  have a: "PdfSplit env srcfn w = (([srcfn], None), snd (PdfPageNum env srcfn w))"
    by (simp add: PdfSplit_def p n)
  have b: "snd (PdfPageNum env srcfn w) = snd (pdfPageNum env srcfn w)"
    if ok: "snd (snd (fst (pdfPageNum env srcfn w))) = None"
  proof -
    obtain m enc e1 w' where q: "pdfPageNum env srcfn w = ((m, enc, e1), w')"
      by (metis prod.exhaust)
    with ok have "e1 = None" by simp
    with q show ?thesis by (simp add: PdfPageNum_def)
  qed
  have c: "spawned (snd (pdfPageNum env srcfn w)) = spawned w @ [probeCmd env srcfn]"
    by (rule pdfPageNum_spawned)
  from a b c show ?thesis by simp
qed

theorem PdfSplit_single_page_witness:
  "fst (PdfSplit demo_env ''/in/one.pdf'' demo_world) = ([''/in/one.pdf''], None) \<and>
   fsys (snd (PdfSplit demo_env ''/in/one.pdf'' demo_world)) = fsys demo_world \<and>
   spawned (snd (PdfSplit demo_env ''/in/one.pdf'' demo_world)) = [[''pdfinfo'', ''/in/one.pdf'']]"
proof -
  have h: "fst (fst (PdfPageNum demo_env ''/in/one.pdf'' demo_world)) = 1" by code_simp
  have f: "fsys (snd (PdfPageNum demo_env ''/in/one.pdf'' demo_world)) = fsys demo_world"
    by code_simp
  have s: "spawned (snd (PdfPageNum demo_env ''/in/one.pdf'' demo_world))
           = [[''pdfinfo'', ''/in/one.pdf'']]"
    by code_simp
  from PdfSplit_single_page[OF h] f s show ?thesis by simp
qed

section \<open>PdfMerge of no file and of one file\<close>

text \<open>
  C7, as stated, fails for a source that cannot be copied: in the sample world, merging
  the single file \<^verbatim>\<open>/in/absent.pdf\<close>, which does not exist, returns the error of the copy
  and leaves no destination.
\<close>

theorem PdfMerge_absent_source:
  "fst (PdfMerge demo_env ''/out/merged.pdf'' [''/in/absent.pdf''] demo_world)
     = Some (PathError ''/in/absent.pdf'') \<and>
   os_Open demo_env ''/out/merged.pdf''
       (fsys (snd (PdfMerge demo_env ''/out/merged.pdf'' [''/in/absent.pdf''] demo_world)))
     = Some (PathError ''/out/merged.pdf'')"
proof -
  have 1: "fst (PdfMerge demo_env ''/out/merged.pdf'' [''/in/absent.pdf''] demo_world)
     = Some (PathError ''/in/absent.pdf'')" by code_simp
  have 2: "os_Open demo_env ''/out/merged.pdf''
       (fsys (snd (PdfMerge demo_env ''/out/merged.pdf'' [''/in/absent.pdf''] demo_world)))
     = Some (PathError ''/out/merged.pdf'')" by code_simp
  from 1 2 show ?thesis by simp
qed

text \<open>
  C7, amended: \<open>PdfMerge\<close> of the empty list of files returns an error and does nothing.
  For a list of one file it does exactly what \<^verbatim>\<open>temp.LinkOrCopy\<close> does from that file to
  the destination and returns its result; it runs no command. So, with a \<^verbatim>\<open>LinkOrCopy\<close>
  whose success means that the destination reads as the source did, a merge of one file
  that returns no error leaves a destination with the bytes of the source.
\<close>

theorem PdfMerge_none_or_one:
  "PdfMerge env destfn [] w = (Some (errors_New ''filenames required!''), w) \<and>
   PdfMerge env destfn [src] w =
     (fst (temp_LinkOrCopy env src destfn (fsys w)),
      w\<lparr>fsys := snd (temp_LinkOrCopy env src destfn (fsys w))\<rparr>) \<and>
   spawned (snd (PdfMerge env destfn [src] w)) = spawned w \<and>
   ((\<forall>s d fs fs'. temp_LinkOrCopy env s d fs = (None, fs') \<longrightarrow>
        file_contents env d fs' = file_contents env s fs) \<longrightarrow>
    fst (PdfMerge env destfn [src] w) = None \<longrightarrow>
    file_contents env destfn (fsys (snd (PdfMerge env destfn [src] w)))
      = file_contents env src (fsys w))"
proof -
  have one: "PdfMerge env destfn [src] w =
     (fst (temp_LinkOrCopy env src destfn (fsys w)),
      w\<lparr>fsys := snd (temp_LinkOrCopy env src destfn (fsys w))\<rparr>)"
    by (simp add: PdfMerge_def split: prod.splits)
  have "file_contents env destfn (fsys (snd (PdfMerge env destfn [src] w)))
      = file_contents env src (fsys w)"
    if c: "\<forall>s d fs fs'. temp_LinkOrCopy env s d fs = (None, fs') \<longrightarrow>
        file_contents env d fs' = file_contents env s fs"
      and ok: "fst (PdfMerge env destfn [src] w) = None"
  proof -
    from ok one have "temp_LinkOrCopy env src destfn (fsys w)
        = (None, snd (temp_LinkOrCopy env src destfn (fsys w)))"
      by (metis fst_conv prod.collapse)
    from c[rule_format, OF this] show ?thesis by (simp add: one)
  qed
  with one show ?thesis by (simp add: PdfMerge_def)
qed

theorem PdfMerge_none_or_one_witness:
  "fst (PdfMerge demo_env ''/out/merged.pdf'' [] demo_world) = Some (errors_New ''filenames required!'') \<and>
   fst (PdfMerge demo_env ''/out/merged.pdf'' [''/in/one.pdf''] demo_world) = None \<and>
   spawned (snd (PdfMerge demo_env ''/out/merged.pdf'' [''/in/one.pdf''] demo_world)) = [] \<and>
   file_contents demo_env ''/out/merged.pdf''
       (fsys (snd (PdfMerge demo_env ''/out/merged.pdf'' [''/in/one.pdf''] demo_world)))
     = (''%PDF-1.4 one page'', None)"
proof -
  have c: "\<forall>s d fs fs'. temp_LinkOrCopy demo_env s d fs = (None, fs') \<longrightarrow>
        file_contents demo_env d fs' = file_contents demo_env s fs"
    by (auto simp: demo_env_def demo_copy_def update_conv' split: option.splits)
  have ok: "fst (PdfMerge demo_env ''/out/merged.pdf'' [''/in/one.pdf''] demo_world) = None"
    by code_simp
  have src: "file_contents demo_env ''/in/one.pdf'' (fsys demo_world) = (''%PDF-1.4 one page'', None)"
    by code_simp
  have sp: "spawned demo_world = []" by (simp add: demo_world_def)
  note m = PdfMerge_none_or_one[of demo_env "''/out/merged.pdf''" demo_world "''/in/one.pdf''"]
  from m have 1: "fst (PdfMerge demo_env ''/out/merged.pdf'' [] demo_world)
      = Some (errors_New ''filenames required!'')" by simp
  from m sp have 2: "spawned (snd (PdfMerge demo_env ''/out/merged.pdf'' [''/in/one.pdf''] demo_world)) = []"
    by simp
  from m c ok have "file_contents demo_env ''/out/merged.pdf''
       (fsys (snd (PdfMerge demo_env ''/out/merged.pdf'' [''/in/one.pdf''] demo_world)))
     = file_contents demo_env ''/in/one.pdf'' (fsys demo_world)" by blast
  with src have 3: "file_contents demo_env ''/out/merged.pdf''
       (fsys (snd (PdfMerge demo_env ''/out/merged.pdf'' [''/in/one.pdf''] demo_world)))
     = (''%PDF-1.4 one page'', None)" by simp
  from 1 ok 2 3 show ?thesis by blast
qed

section \<open>What a clean pass spawns\<close>

lemma xToX_spawned:
  "\<exists>c. spawned (snd (xToX env destfn srcfn tops w)) = spawned w @ [c] \<and> 3 < length c"
proof -
  obtain opts where o: "xToX env destfn srcfn tops w =
      (case call env (ConfGs env) opts w of
         (Some err, w') \<Rightarrow>
           (Some (errors_Wrapf err ''converting %s to %s with %s'' [srcfn, destfn, ConfGs env]), w')
       | (None, w') \<Rightarrow> (None, w'))" and l: "3 < length opts"
    by (cases tops) (simp_all add: xToX_def)
  obtain r w' where c: "call env (ConfGs env) opts w = (r, w')" by (metis prod.exhaust)
  from call_spawned[of env "ConfGs env" opts w] c
  have "spawned w' = spawned w @ [ConfGs env # opts]" by simp
  with o c l show ?thesis by (auto split: option.splits)
qed

lemma PdfRewrite_spawned:
  "\<exists>cs. spawned (snd (PdfRewrite env destfn srcfn w)) = spawned w @ cs \<and>
        (\<forall>c \<in> set cs. 3 < length c)"
proof -
  define psfn where "psfn = nakeFilename env srcfn @ ''-pp.ps''"
  obtain r1 w1 where a: "PdfToPs env psfn srcfn w = (r1, w1)" by (metis prod.exhaust)
  from xToX_spawned[of env psfn srcfn True w] a
  obtain c1 where c1: "spawned w1 = spawned w @ [c1]" "3 < length c1"
    by (auto simp: PdfToPs_def)
  show ?thesis
  proof (cases r1)
    case (Some e)
    with a c1 show ?thesis
      by (auto simp: PdfRewrite_def psfn_def[symmetric] Let_def)
  next
    case None
    define pdffn2 where "pdffn2 = (if destfn = srcfn then psfn @ ''.pdf'' else destfn)"
    obtain r2 w2 where b: "PsToPdf env pdffn2 psfn w1 = (r2, w2)" by (metis prod.exhaust)
    from xToX_spawned[of env pdffn2 psfn False w1] b
    obtain c2 where c2: "spawned w2 = spawned w1 @ [c2]" "3 < length c2"
      by (auto simp: PsToPdf_def)
    from a None b c1 c2 show ?thesis
      by (auto simp: PdfRewrite_def psfn_def[symmetric] pdffn2_def[symmetric] Let_def
               split: option.splits prod.splits)
  qed
qed

lemma runCleaner_spawned:
  "\<exists>cs. spawned (snd (runCleaner env status fn w)) = spawned w @ cs \<and>
        (\<forall>c \<in> set cs. 3 < length c \<or> c = probeCmd env (fn @ ''-cleaned.pdf''))"
proof -
  define cleaner where
    "cleaner = (if status AND pcPdfClean \<noteq> 0 then ConfPdfClean env else ConfMutool env)"
  define args where
    "args = (if status AND pcPdfClean \<noteq> 0 then [''-ggg'', fn, fn @ ''-cleaned.pdf'']
             else [''clean'', ''-ggg'', fn, fn @ ''-cleaned.pdf''])"
  have l: "3 < length (cleaner # args)" by (simp add: args_def)
  obtain r w1 where c: "call env cleaner args w = (r, w1)" by (metis prod.exhaust)
  from call_spawned[of env cleaner args w] c
  have s1: "spawned w1 = spawned w @ [cleaner # args]" by simp
  show ?thesis
  proof (cases r)
    case (Some e)
    with c s1 l show ?thesis
      by (auto simp: runCleaner_def cleaner_def[symmetric] args_def[symmetric] Let_def)
  next
    case None
    obtain q w2 where p: "pdfPageNum env (fn @ ''-cleaned.pdf'') w1 = (q, w2)"
      by (metis prod.exhaust)
    from pdfPageNum_spawned[of env "fn @ ''-cleaned.pdf''" w1] p
    have "spawned w2 = spawned w1 @ [probeCmd env (fn @ ''-cleaned.pdf'')]" by simp
    with c None p s1 l show ?thesis
      by (auto simp: runCleaner_def cleaner_def[symmetric] args_def[symmetric] Let_def
               split: prod.splits)
  qed
qed

lemma remember_spawned [simp]: "spawned (remember env fn w) = spawned w"
  by (simp add: remember_def Let_def)

text \<open>
  A clean pass only adds to the record of the spawned commands; what it adds are commands
  with more than three words (the cleaning tool, Ghostscript) and at most a probe of the
  cleaned copy, never of the path \<open>fn\<close> it was called with.
\<close>

lemma PdfClean_spawned:
  "\<exists>cs. spawned (snd (PdfClean env fn0 w)) = spawned w @ cs \<and>
        (\<forall>c \<in> set cs. 3 < length c \<or>
           (\<exists>fn. (if \<not> IsAbs fn0 then filepath_Abs env fn0 else Inr fn0) = Inr fn \<and>
                 c = probeCmd env (fn @ ''-cleaned.pdf'')))"
proof (cases "if \<not> IsAbs fn0 then filepath_Abs env fn0 else Inr fn0")
  case (Inl e)
  then show ?thesis by (simp add: PdfClean_def)
next
  case (Inr fn)
  show ?thesis
  proof (cases "isAlreadyCleaned env fn w")
    case True
    with Inr show ?thesis by (simp add: PdfClean_def)
  next
    case False
    define w0 where "w0 = w\<lparr>pdfCleanStatus := checkCleaners env (pdfCleanStatus w)\<rparr>"
    define status where "status = pdfCleanStatus w0"
    have s0: "spawned w0 = spawned w" by (simp add: w0_def)
    obtain r w1 where step:
      "(if status \<noteq> pcNothing then runCleaner env status fn w0
        else PdfRewrite env (fn @ ''-cleaned.pdf'') fn w0) = (r, w1)"
      by (metis prod.exhaust)
    have "\<exists>cs. spawned w1 = spawned w0 @ cs \<and>
        (\<forall>c \<in> set cs. 3 < length c \<or> c = probeCmd env (fn @ ''-cleaned.pdf''))"
    proof (cases "status \<noteq> pcNothing")
      case True
      with step runCleaner_spawned[of env status fn w0] show ?thesis by auto
    next
      case False
      with step PdfRewrite_spawned[of env "fn @ ''-cleaned.pdf''" fn w0] show ?thesis by auto
    qed
    then obtain cs where cs: "spawned w1 = spawned w @ cs"
      "\<forall>c \<in> set cs. 3 < length c \<or> c = probeCmd env (fn @ ''-cleaned.pdf'')"
      using s0 by auto
    have "spawned (snd (PdfClean env fn0 w)) = spawned w1"
      using Inr False step
      by (auto simp: PdfClean_def Let_def w0_def[symmetric] status_def[symmetric]
               split: option.splits prod.splits)
    with cs Inr show ?thesis by auto
  qed
qed

lemma probeCmd_length: "length (probeCmd env f) \<le> 3"
  by (simp add: probeCmd_def)

lemma probeCmd_inj: "probeCmd env a = probeCmd env b \<Longrightarrow> a = b"
  by (simp add: probeCmd_def split: if_splits)

section \<open>PdfPageNum: one probe, or a probe, a clean pass and a probe\<close>

text \<open>The course of \<open>PdfPageNum\<close>, with the commands it spawns.\<close>

lemma PdfPageNum_course:
  "(snd (snd (fst (pdfPageNum env srcfn w))) = None \<longrightarrow>
      PdfPageNum env srcfn w =
        ((fst (fst (pdfPageNum env srcfn w)), None), snd (pdfPageNum env srcfn w)) \<and>
      spawned (snd (PdfPageNum env srcfn w)) = spawned w @ [probeCmd env srcfn]) \<and>
   (snd (snd (fst (pdfPageNum env srcfn w))) \<noteq> None \<longrightarrow>
      (\<exists>w1 cleanErr w2 cs.
         w1 = snd (pdfPageNum env srcfn w) \<and>
         PdfClean env srcfn w1 = (cleanErr, w2) \<and>
         spawned w2 = spawned w1 @ cs \<and>
         PdfPageNum env srcfn w =
           ((fst (fst (pdfPageNum env srcfn w2)), snd (snd (fst (pdfPageNum env srcfn w2)))),
            snd (pdfPageNum env srcfn w2)) \<and>
         spawned (snd (PdfPageNum env srcfn w)) =
           spawned w @ [probeCmd env srcfn] @ cs @ [probeCmd env srcfn]))"
proof -
  obtain n enc e w1 where p1: "pdfPageNum env srcfn w = ((n, enc, e), w1)"
    by (metis prod.exhaust)
  from pdfPageNum_spawned[of env srcfn w] p1
  have s1: "spawned w1 = spawned w @ [probeCmd env srcfn]" by simp
  show ?thesis
  proof (cases e)
    case None
    with p1 s1 show ?thesis by (simp add: PdfPageNum_def)
  next
    case (Some err)
    obtain cleanErr w2 where c: "PdfClean env srcfn w1 = (cleanErr, w2)"
      by (metis prod.exhaust)
    from PdfClean_spawned[of env srcfn w1] c
    obtain cs where cs: "spawned w2 = spawned w1 @ cs" by auto
    obtain n2 enc2 e2 w3 where p2: "pdfPageNum env srcfn w2 = ((n2, enc2, e2), w3)"
      by (metis prod.exhaust)
    from pdfPageNum_spawned[of env srcfn w2] p2
    have s3: "spawned w3 = spawned w2 @ [probeCmd env srcfn]" by simp
    have r: "PdfPageNum env srcfn w = ((n2, e2), w3)"
      by (simp add: PdfPageNum_def p1 Some c p2)
    from p1 Some c cs p2 s1 s3 r show ?thesis by simp
  qed
qed



text \<open>
  With a \<^verbatim>\<open>filepath.Abs\<close> that returns absolute paths, the probe that a clean pass makes of
  its cleaned copy is not a probe of the source, so the source is probed once or twice.
\<close>

lemma cleaned_copy_is_not_source:
  assumes abs: "\<forall>p q. filepath_Abs env p = Inr q \<longrightarrow> IsAbs q"
    and fn: "(if \<not> IsAbs srcfn then filepath_Abs env srcfn else Inr srcfn) = Inr fn"
  shows "fn @ ''-cleaned.pdf'' \<noteq> srcfn"
proof (cases "IsAbs srcfn")
  case True
  with fn show ?thesis by simp
next
  case False
  with fn abs have a: "IsAbs fn" by auto
  then obtain r where "fn = CHR ''/'' # r"
    by (cases fn) (auto simp: IsAbs_def HasPrefix_def)
  then have "IsAbs (fn @ ''-cleaned.pdf'')" by (simp add: IsAbs_def HasPrefix_def)
  with False show ?thesis by auto
qed

lemma PdfPageNum_probes_source_at_most_twice:
  assumes abs: "\<forall>p q. filepath_Abs env p = Inr q \<longrightarrow> IsAbs q"
  shows "count_list (drop (length (spawned w)) (spawned (snd (PdfPageNum env srcfn w))))
           (probeCmd env srcfn)
         = (if snd (snd (fst (pdfPageNum env srcfn w))) = None then 1 else 2)"
proof (cases "snd (snd (fst (pdfPageNum env srcfn w))) = None")
  case True
  with PdfPageNum_course[of env srcfn w] show ?thesis by simp
next
  case False
  define w1 where "w1 = snd (pdfPageNum env srcfn w)"
  from PdfClean_spawned[of env srcfn w1]
  obtain cs where cs: "spawned (snd (PdfClean env srcfn w1)) = spawned w1 @ cs"
    and each: "\<forall>c \<in> set cs. 3 < length c \<or>
           (\<exists>fn. (if \<not> IsAbs srcfn then filepath_Abs env srcfn else Inr srcfn) = Inr fn \<and>
                 c = probeCmd env (fn @ ''-cleaned.pdf''))"
    by auto
  have "probeCmd env srcfn \<notin> set cs"
  proof
    assume m: "probeCmd env srcfn \<in> set cs"
    with each probeCmd_length[of env srcfn]
    obtain fn where fn: "(if \<not> IsAbs srcfn then filepath_Abs env srcfn else Inr srcfn) = Inr fn"
      and eq: "probeCmd env srcfn = probeCmd env (fn @ ''-cleaned.pdf'')"
      by fastforce
    from probeCmd_inj[OF eq] cleaned_copy_is_not_source[OF abs fn] show False by simp
  qed
  then have z: "count_list cs (probeCmd env srcfn) = 0" by (simp add: count_list_0_iff)
  from PdfPageNum_course[of env srcfn w] False
  obtain cleanErr w2 cs' where c: "PdfClean env srcfn w1 = (cleanErr, w2)"
    "spawned w2 = spawned w1 @ cs'"
    "spawned (snd (PdfPageNum env srcfn w)) =
           spawned w @ [probeCmd env srcfn] @ cs' @ [probeCmd env srcfn]"
    unfolding w1_def by blast
  from c(1,2) cs have "cs' = cs" by simp
  with c(3) z False show ?thesis by simp
qed

section \<open>PdfClean twice\<close>





section \<open>PdfFillFdf with an unknown field\<close>

text \<open>For a template that \<open>splitFdf\<close> parsed, the names it knows are the names in \<open>Fields\<close>.\<close>

lemma fieldNames_splitFdf: "fieldNames (splitFdf fdf) = set (Fields (splitFdf fdf))"
  by (simp add: fieldNames_def splitFdf_Values_dom)

lemma fieldParts_Set_known:
  "Values fp k \<noteq> None \<Longrightarrow> fieldParts_Set fp k v = Inr (fp\<lparr>Values := (Values fp)(k \<mapsto> v)\<rparr>)"
  by (auto simp: fieldParts_Set_def)

lemma fieldParts_Set_unknown:
  "Values fp k = None \<Longrightarrow> fieldParts_Set fp k v = Inl (errors_New (''field '' @ k @ '' not exist''))"
  by (simp add: fieldParts_Set_def)

text \<open>
  The loop over the values stops with the error of the first key, in the order of the
  visit, that the template does not know.
\<close>

lemma setValues_unknown:
  assumes "\<exists>k \<in> fst ` set vals. k \<notin> dom (Values fp)"
  shows "\<exists>k \<in> fst ` set vals. k \<notin> dom (Values fp) \<and>
           setValues fp vals = Inl (errors_New (''field '' @ k @ '' not exist''))"
  using assms
proof (induction vals arbitrary: fp)
  case Nil
  then show ?case by simp
next
  case (Cons kv rest)
  obtain k v where kv: "kv = (k, v)" by (cases kv)
  show ?case
  proof (cases "Values fp k")
    case None
    then have "k \<notin> dom (Values fp)" by auto
    with None kv show ?thesis by (auto simp: fieldParts_Set_unknown)
  next
    case (Some old)
    define fp' where "fp' = fp\<lparr>Values := (Values fp)(k \<mapsto> v)\<rparr>"
    from Some have d: "dom (Values fp') = dom (Values fp)" by (auto simp: fp'_def)
    from Some have s: "fieldParts_Set fp k v = Inr fp'"
      by (simp add: fieldParts_Set_known fp'_def)
    from Cons.prems kv Some have "\<exists>k \<in> fst ` set rest. k \<notin> dom (Values fp')"
      unfolding d by auto
    from Cons.IH[OF this] obtain k' where
      "k' \<in> fst ` set rest" "k' \<notin> dom (Values fp')"
      "setValues fp' rest = Inl (errors_New (''field '' @ k' @ '' not exist''))"
      by blast
    with kv s d show ?thesis by auto
  qed
qed

lemma saveGob_is_fs [simp]: "spawned (w\<lparr>fsys := saveGob env path fp (fsys w)\<rparr>) = spawned w"
  by simp

text \<open>Getting the template spawns nothing, or the one command that dumps the form data.\<close>

lemma getFdf_spawned:
  "\<exists>cs. spawned (snd (getFdf env inpfn w)) = spawned w @ cs \<and> (\<forall>c \<in> set cs. length c = 5)"
proof (cases "fileContentHash env inpfn (fsys w)")
  case (Inl e)
  then show ?thesis by (simp add: getFdf_def)
next
  case (Inr hsh)
  define fdfFn where
    "fdfFn = filepath_Join env [Workdir env, base64_URLEncoding env hsh @ ''.fdf'']"
  obtain r wd where d: "PdfDumpFdf env fdfFn inpfn w = (r, wd)" by (metis prod.exhaust)
  obtain r' wc where c: "call env (ConfPdftk env) [inpfn, ''generate_fdf'', ''output'', fdfFn] w = (r', wc)"
    by (metis prod.exhaust)
  from call_spawned[of env "ConfPdftk env" "[inpfn, ''generate_fdf'', ''output'', fdfFn]" w] c
  have "spawned wc = spawned w @ [[ConfPdftk env, inpfn, ''generate_fdf'', ''output'', fdfFn]]"
    by simp
  with c d have sd: "spawned wd = spawned w @ [[ConfPdftk env, inpfn, ''generate_fdf'', ''output'', fdfFn]]"
    by (auto simp: PdfDumpFdf_def split: option.splits)
  have "spawned (snd (getFdf env inpfn w)) = spawned w \<or>
        spawned (snd (getFdf env inpfn w)) = spawned wd"
    using Inr d
    by (auto simp: getFdf_def Let_def fdfFn_def[symmetric] split: option.splits prod.splits sum.splits)
  with sd show ?thesis by auto
qed

text \<open>
  The template that \<open>getFdf\<close> returns was parsed by \<open>splitFdf\<close>, or decoded from the
  cache file.
\<close>

lemma getFdf_template:
  assumes "fst (getFdf env inpfn w) = Inr fp"
  shows "(\<exists>fdf. fp = splitFdf fdf) \<or> (\<exists>d. gob_Decode env d = Inr fp)"
  using assms
  by (auto simp: getFdf_def Let_def split: sum.splits option.splits prod.splits if_splits)
     (metis surj_pair)

text \<open>The course of \<open>PdfFillFdf\<close> when the values hold a key the template does not know.\<close>

lemma PdfFillFdf_unknown_course:
  assumes tmpl: "fst (getFdf env inpfn w) = Inr fp"
    and unknown: "\<exists>k \<in> fst ` set vals. k \<notin> fieldNames fp"
  shows "(\<exists>k \<in> fst ` set vals. k \<notin> fieldNames fp \<and>
            PdfFillFdf env destfn inpfn vals w =
              Inr (Some (errors_New (''field '' @ k @ '' not exist'')), snd (getFdf env inpfn w))) \<and>
         [ConfPdftk env, inpfn, ''fill_form'', ''-'', ''output'', destfn]
           \<notin> set (drop (length (spawned w)) (spawned (snd (getFdf env inpfn w))))"
proof -
  from unknown have ne: "length vals \<noteq> 0" by auto
  from tmpl have g: "getFdf env inpfn w = (Inr fp, snd (getFdf env inpfn w))"
    by (metis prod.collapse)
  from setValues_unknown[of vals fp] unknown
  obtain k where k: "k \<in> fst ` set vals" "k \<notin> fieldNames fp"
    "setValues fp vals = Inl (errors_New (''field '' @ k @ '' not exist''))"
    unfolding fieldNames_def by blast
  have "PdfFillFdf env destfn inpfn vals w =
          Inr (Some (errors_New (''field '' @ k @ '' not exist'')), snd (getFdf env inpfn w))"
    unfolding PdfFillFdf_def using ne by (subst g) (simp add: k(3))
  with k have 1: "\<exists>k \<in> fst ` set vals. k \<notin> fieldNames fp \<and>
            PdfFillFdf env destfn inpfn vals w =
              Inr (Some (errors_New (''field '' @ k @ '' not exist'')), snd (getFdf env inpfn w))"
    by blast
  from getFdf_spawned[of env inpfn w]
  obtain cs where cs: "spawned (snd (getFdf env inpfn w)) = spawned w @ cs"
    "\<forall>c \<in> set cs. length c = 5" by blast
  then have 2: "[ConfPdftk env, inpfn, ''fill_form'', ''-'', ''output'', destfn]
           \<notin> set (drop (length (spawned w)) (spawned (snd (getFdf env inpfn w))))"
    by auto
  from 1 2 show ?thesis by simp
qed

text \<open>
  The same in terms of \<open>Fields\<close>, for a cache that holds templates as \<open>splitFdf\<close> makes
  them, with the names of \<open>Fields\<close> as the keys of \<open>Values\<close>.
\<close>

lemma PdfFillFdf_unknown_Fields:
  assumes tmpl: "fst (getFdf env inpfn w) = Inr fp"
    and cache: "\<forall>d fp'. gob_Decode env d = Inr fp' \<longrightarrow> fieldNames fp' = set (Fields fp')"
    and unknown: "\<exists>k \<in> fst ` set vals. k \<notin> set (Fields fp)"
  shows "\<exists>k \<in> fst ` set vals. k \<notin> set (Fields fp) \<and>
            PdfFillFdf env destfn inpfn vals w =
              Inr (Some (errors_New (''field '' @ k @ '' not exist'')), snd (getFdf env inpfn w))"
proof -
  from getFdf_template[OF tmpl] cache have "fieldNames fp = set (Fields fp)"
    by (auto simp: fieldNames_splitFdf)
  with PdfFillFdf_unknown_course[OF tmpl, of vals destfn] unknown show ?thesis by simp
qed

text \<open>
  C5: when the template of the source has been obtained and the values, which are then
  not empty, contain a key that is not among the field names of the template (the keys
  of its mapping from field names to values; for a parsed template, the names in
  \<open>Fields\<close>), \<open>PdfFillFdf\<close> returns the error of \<open>fieldParts.Set\<close> for such a key,
  \<^verbatim>\<open>field <key> not exist\<close>, in whatever order the map is visited, and leaves the world
  as getting the template left it: the form is not serialised, the form-fill command is
  not run, the destination is not written.
\<close>

theorem PdfFillFdf_unknown_field:
  assumes tmpl: "fst (getFdf env inpfn w) = Inr fp"
    and unknown: "\<exists>k \<in> fst ` set vals. k \<notin> fieldNames fp"
  shows "(\<exists>k \<in> fst ` set vals. k \<notin> fieldNames fp \<and>
            PdfFillFdf env destfn inpfn vals w =
              Inr (Some (errors_New (''field '' @ k @ '' not exist'')), snd (getFdf env inpfn w))) \<and>
         [ConfPdftk env, inpfn, ''fill_form'', ''-'', ''output'', destfn]
           \<notin> set (drop (length (spawned w)) (spawned (snd (getFdf env inpfn w))))"
  using assms by (rule PdfFillFdf_unknown_course)

theorem PdfFillFdf_unknown_field_witness:
  "PdfFillFdf demo_env ''/out/filled.pdf'' ''/in/form.pdf'' [(''a'', ''x''), (''zzz'', ''v'')] demo_world
     = Inr (Some (errors_New ''field zzz not exist''), snd (getFdf demo_env ''/in/form.pdf'' demo_world)) \<and>
   spawned (snd (getFdf demo_env ''/in/form.pdf'' demo_world))
     = [[''pdftk'', ''/in/form.pdf'', ''generate_fdf'', ''output'', ''/tmp/%PDF-1.4 form.fdf'']]"
proof -
  define fp where "fp = projr (fst (getFdf demo_env ''/in/form.pdf'' demo_world))"
  have "\<not> isl (fst (getFdf demo_env ''/in/form.pdf'' demo_world))" by code_simp
  then have tmpl: "fst (getFdf demo_env ''/in/form.pdf'' demo_world) = Inr fp"
    by (simp add: fp_def)
  have a: "Values fp ''a'' = Some []" unfolding fp_def by code_simp
  have z: "Values fp ''zzz'' = None" unfolding fp_def by code_simp
  from z have unknown: "\<exists>k \<in> fst ` set [(''a'', ''x''), (''zzz'', ''v'')]. k \<notin> fieldNames fp"
    by (auto simp: fieldNames_def)
  from PdfFillFdf_unknown_field[OF tmpl unknown, of "''/out/filled.pdf''"]
  obtain k where k: "k \<in> fst ` set [(''a'', ''x''), (''zzz'', ''v'')]" "k \<notin> fieldNames fp"
    "PdfFillFdf demo_env ''/out/filled.pdf'' ''/in/form.pdf'' [(''a'', ''x''), (''zzz'', ''v'')] demo_world
      = Inr (Some (errors_New (''field '' @ k @ '' not exist'')), snd (getFdf demo_env ''/in/form.pdf'' demo_world))"
    by blast
  from k(1,2) a have "k = ''zzz''" by (auto simp: fieldNames_def)
  with k(3) have 1: "PdfFillFdf demo_env ''/out/filled.pdf'' ''/in/form.pdf'' [(''a'', ''x''), (''zzz'', ''v'')] demo_world
     = Inr (Some (errors_New ''field zzz not exist''), snd (getFdf demo_env ''/in/form.pdf'' demo_world))"
    by simp
  have 2: "spawned (snd (getFdf demo_env ''/in/form.pdf'' demo_world))
     = [[''pdftk'', ''/in/form.pdf'', ''generate_fdf'', ''output'', ''/tmp/%PDF-1.4 form.fdf'']]"
    by code_simp
  from 1 2 show ?thesis by simp
qed


end
